theory Spec2Isabelle
  imports Complex_Main "HOL-Library.Log_Nat"
begin

section \<open>Values of the metadata tree\<close>

text \<open>
  The values that flow through \<^verbatim>\<open>fa_header_generator.py\<close>: the metadata tree produced by
  the extractors, the values of the transformations and the leaves of the generated header.
  A Python \<^verbatim>\<open>str\<close> is a \<open>string\<close> whose characters are the code points below 256; a
  Python \<^verbatim>\<open>int\<close> is an unbounded \<open>int\<close>. A Python \<^verbatim>\<open>float\<close> is a binary double:
  \<open>PFloat r\<close> stands for the double nearest to the rational \<open>r\<close>, so that a decimal text
  can be kept as the number it spells, and arithmetic rounds its exact result to a double
  (infinities and NaN are outside the model). A \<^verbatim>\<open>dict\<close> is an association list from keys
  to values, looked up by key equality.
\<close>

datatype pyval =
    PNone
  | PBool bool
  | PInt int
  | PFloat rat
  | PStr string
  | PTuple "pyval list"
  | PList "pyval list"
  | PDict "(pyval \<times> pyval) list"

datatype py_error = KeyError | TypeError | AttributeError | ValueError | ZeroDivisionError

text \<open>\<^verbatim>\<open>isinstance(value, (int, float))\<close>: a \<^verbatim>\<open>bool\<close> is an \<^verbatim>\<open>int\<close> in Python.\<close>

fun is_number :: "pyval \<Rightarrow> bool" where
  "is_number (PBool b) = True"
| "is_number (PInt n) = True"
| "is_number (PFloat r) = True"
| "is_number v = False"

text \<open>
  Rounding to the nearest integer, a tie going to the even neighbour, and rounding of a
  rational to the nearest binary double (53 significant bits, gradual underflow below
  \<open>2\<^sup>-\<^sup>1\<^sup>0\<^sup>2\<^sup>2\<close>, ties to the even significand). Overflow to infinity is not
  modelled.
\<close>

definition round_half_even :: "rat \<Rightarrow> int" where
  "round_half_even x =
     (let f = \<lfloor>x\<rfloor>; d = x - of_int f
      in if d < 1 / 2 then f
         else if 1 / 2 < d then f + 1
         else if even f then f else f + 1)"

definition pow2 :: "int \<Rightarrow> rat" where
  "pow2 e = (if 0 \<le> e then 2 ^ nat e else 1 / 2 ^ nat (- e))"

definition to_double :: "rat \<Rightarrow> rat" where
  "to_double r =
     (if r = 0 then 0
      else (let a = \<bar>r\<bar>;
                e0 = bitlen (fst (quotient_of a)) - bitlen (snd (quotient_of a));
                e = (if pow2 e0 \<le> a then e0 else e0 - 1);
                u = max (e - 52) (- 1074);
                m = round_half_even (a / pow2 u)
            in (if r < 0 then - 1 else 1) * of_int m * pow2 u))"

text \<open>
  The numeric value of a number, as used by comparison and division: an integer is
  exact, a float is the double it stands for.
\<close>

fun num_val :: "pyval \<Rightarrow> rat" where
  "num_val (PBool b) = (if b then 1 else 0)"
| "num_val (PInt n) = of_int n"
| "num_val (PFloat r) = to_double r"
| "num_val v = 0"

text \<open>Truth value of an object, as tested by \<^verbatim>\<open>if value\<close> and \<^verbatim>\<open>a and b\<close>.\<close>

fun py_truthy :: "pyval \<Rightarrow> bool" where
  "py_truthy PNone = False"
| "py_truthy (PBool b) = b"
| "py_truthy (PInt n) = (n \<noteq> 0)"
| "py_truthy (PFloat r) = (to_double r \<noteq> 0)"
| "py_truthy (PStr s) = (s \<noteq> [])"
| "py_truthy (PTuple xs) = (xs \<noteq> [])"
| "py_truthy (PList xs) = (xs \<noteq> [])"
| "py_truthy (PDict kvs) = (kvs \<noteq> [])"

section \<open>Characters and strings\<close>

definition is_digit :: "char \<Rightarrow> bool" where
  "is_digit c = ((48::nat) \<le> of_char c \<and> (of_char c :: nat) \<le> 57)"

definition digit_val :: "char \<Rightarrow> nat" where
  "digit_val c = of_char c - 48"

text \<open>The character class \<^verbatim>\<open>[\x00-\x1f\x7f-\x9f]\<close> of \<^verbatim>\<open>_clean_string\<close>.\<close>

definition is_control :: "char \<Rightarrow> bool" where
  "is_control c = ((of_char c :: nat) \<le> 31 \<or> ((127::nat) \<le> of_char c \<and> (of_char c :: nat) \<le> 159))"

text \<open>
  White space as \<^verbatim>\<open>str.strip()\<close>, \<^verbatim>\<open>str.isspace()\<close> and the pattern \<^verbatim>\<open>\s\<close> see it, for
  code points below 256: 9 to 13, 28 to 32, 133 and 160.
\<close>

definition py_isspace :: "char \<Rightarrow> bool" where
  "py_isspace c = (let n = (of_char c :: nat) in
     (9 \<le> n \<and> n \<le> 13) \<or> (28 \<le> n \<and> n \<le> 32) \<or> n = 133 \<or> n = 160)"

definition strip :: "string \<Rightarrow> string" where
  "strip s = rev (dropWhile py_isspace (rev (dropWhile py_isspace s)))"

text \<open>\<^verbatim>\<open>str.lower()\<close> on code points below 256.\<close>

definition lower_char :: "char \<Rightarrow> char" where
  "lower_char c = (let n = (of_char c :: nat) in
     if (65 \<le> n \<and> n \<le> 90) \<or> (192 \<le> n \<and> n \<le> 222 \<and> n \<noteq> 215)
     then char_of (n + 32) else c)"

definition lower :: "string \<Rightarrow> string" where
  "lower s = map lower_char s"

text \<open>\<^verbatim>\<open>s.split(sep)\<close> for a one-character separator.\<close>

fun split_on :: "char \<Rightarrow> string \<Rightarrow> string list" where
  "split_on sep [] = [[]]"
| "split_on sep (c # cs) =
     (if c = sep then [] # split_on sep cs
      else (case split_on sep cs of
              [] \<Rightarrow> [[c]]
            | w # ws \<Rightarrow> (c # w) # ws))"

text \<open>The decimal value of a run of digits.\<close>

definition digits_val :: "string \<Rightarrow> nat" where
  "digits_val ds = foldl (\<lambda>a c. 10 * a + digit_val c) 0 ds"

section \<open>Transformation library\<close>

subsection \<open>String cleaning\<close>

text \<open>
  \<^verbatim>\<open>str(value)\<close> is applied by the source to values that are neither \<^verbatim>\<open>None\<close> nor a string.
  The builtin is a parameter \<open>repr\<close> of the model (it depends on the float printing
  algorithm and on the \<^verbatim>\<open>repr\<close> of nested containers); every result below holds for each
  choice of it.
\<close>

definition clean_string :: "(pyval \<Rightarrow> string) \<Rightarrow> pyval \<Rightarrow> string" where
  "clean_string repr value =
     (let v = (case value of PTuple (x # xs) \<Rightarrow> x | _ \<Rightarrow> value)
      in case v of
           PStr s \<Rightarrow> strip (filter (\<lambda>c. \<not> is_control c) s)
         | PNone \<Rightarrow> []
         | _ \<Rightarrow> repr v)"

definition get_first_valid_string :: "(pyval \<Rightarrow> string) \<Rightarrow> pyval \<Rightarrow> string" where
  "get_first_valid_string repr value =
     (let v = (case value of PTuple (x # xs) \<Rightarrow> x | PList (x # xs) \<Rightarrow> x | _ \<Rightarrow> value)
      in case v of
           PStr s \<Rightarrow> clean_string repr v
         | PNone \<Rightarrow> []
         | _ \<Rightarrow> repr v)"

subsection \<open>Numeric parsing\<close>

text \<open>
  The pattern \<^verbatim>\<open>-?\d+\.?\d*\<close> anchored at the head of a string: an optional minus sign,
  a longest run of at least one digit, an optional point and a longest run of digits.
  After the digits every part is optional, so the greedy choice never backtracks; a minus
  sign that no digit follows makes the attempt at this position fail (without the sign
  the digits would have to start at the minus).
\<close>

definition match_unsigned :: "string \<Rightarrow> string option" where
  "match_unsigned r =
     (let ds = takeWhile is_digit r; r' = dropWhile is_digit r
      in if ds = [] then None
         else (case r' of
                 [] \<Rightarrow> Some ds
               | c # t \<Rightarrow> if c = CHR ''.'' then Some (ds @ c # takeWhile is_digit t)
                          else Some ds))"

fun match_number_at :: "string \<Rightarrow> string option" where
  "match_number_at [] = None"
| "match_number_at (c # t) =
     (if c = CHR ''-'' then map_option ((#) c) (match_unsigned t)
      else match_unsigned (c # t))"

text \<open>\<^verbatim>\<open>re.findall(pattern, value)[0]\<close>: the leftmost match, if there is one.\<close>

fun first_number :: "string \<Rightarrow> string option" where
  "first_number [] = None"
| "first_number (c # cs) =
     (case match_number_at (c # cs) of
        Some m \<Rightarrow> Some m
      | None \<Rightarrow> first_number cs)"

text \<open>
  \<^verbatim>\<open>int(m)\<close> and \<^verbatim>\<open>float(m)\<close> on a text \<open>m\<close> matched by the pattern. On such a text neither
  conversion raises \<^verbatim>\<open>ValueError\<close> (the interpreter's optional limit on the number of
  digits of an integer literal aside), so the \<^verbatim>\<open>except\<close> branch of the source is not taken.
\<close>

definition int_of_match :: "string \<Rightarrow> int" where
  "int_of_match m =
     (case m of
        [] \<Rightarrow> 0
      | c # t \<Rightarrow> if c = CHR ''-'' then - int (digits_val t) else int (digits_val m))"

definition float_of_match :: "string \<Rightarrow> rat" where
  "float_of_match m =
     (let neg = (case m of c # t \<Rightarrow> c = CHR ''-'' | [] \<Rightarrow> False);
          body = (if neg then tl m else m);
          ip = takeWhile (\<lambda>c. c \<noteq> CHR ''.'') body;
          fp = drop (Suc (length ip)) body;
          mag = of_nat (digits_val ip) + of_nat (digits_val fp) / 10 ^ length fp
      in if neg then - mag else mag)"

definition number_of_match :: "string \<Rightarrow> pyval" where
  "number_of_match m =
     (if CHR ''.'' \<in> set m then PFloat (float_of_match m) else PInt (int_of_match m))"

definition parse_number_text :: "pyval \<Rightarrow> pyval" where
  "parse_number_text value =
     (case value of
        PStr s \<Rightarrow> (case first_number s of Some m \<Rightarrow> number_of_match m | None \<Rightarrow> PNone)
      | _ \<Rightarrow> PNone)"

fun parse_first_number :: "pyval \<Rightarrow> pyval" where
  "parse_first_number (PBool b) = PBool b"
| "parse_first_number (PInt n) = PInt n"
| "parse_first_number (PFloat r) = PFloat r"
| "parse_first_number (PTuple (x # xs)) = (if is_number x then x else parse_number_text x)"
| "parse_first_number (PList (x # xs)) = (if is_number x then x else parse_number_text x)"
| "parse_first_number value = parse_number_text value"

subsection \<open>Resolution to pixel size\<close>

text \<open>
  True division \<^verbatim>\<open>a / b\<close> of two numbers, which raises on a zero divisor and otherwise
  gives the double nearest to the exact quotient.
\<close>

definition py_truediv :: "rat \<Rightarrow> rat \<Rightarrow> py_error + rat" where
  "py_truediv a b = (if b = 0 then Inl ZeroDivisionError else Inr (to_double (a / b)))"

text \<open>
  \<^verbatim>\<open>round(x, ndigits)\<close> for a float \<open>x\<close> and a non-negative number of digits: the exact
  value of the double is rounded to that many decimal places (a tie to the even digit)
  and the decimal obtained is converted back to the nearest double.
\<close>

definition py_round :: "rat \<Rightarrow> nat \<Rightarrow> rat" where
  "py_round x ndigits = to_double (of_int (round_half_even (x * 10 ^ ndigits)) / 10 ^ ndigits)"

definition resolution_to_pixel_size :: "pyval \<Rightarrow> py_error + pyval" where
  "resolution_to_pixel_size value =
     (let dpi = parse_first_number value
      in if py_truthy dpi \<and> 0 < num_val dpi
         then (case py_truediv 25400000 (num_val dpi) of
                 Inl e \<Rightarrow> Inl e
               | Inr nm_per_pixel \<Rightarrow> Inr (PFloat (py_round nm_per_pixel 2)))
         else Inr PNone)"

subsection \<open>Colour mode\<close>

definition mode_map :: "(string \<times> string) list" where
  "mode_map =
     [(''l'', ''grayscale''), (''grayscale'', ''grayscale''), (''grey'', ''grayscale''),
      (''gray'', ''grayscale''), (''rgb'', ''rgb''), (''rgba'', ''rgb''), (''cmyk'', ''cmyk''),
      (''palette'', ''palette''), (''p'', ''palette'')]"

definition normalize_color_mode :: "(pyval \<Rightarrow> string) \<Rightarrow> pyval \<Rightarrow> string" where
  "normalize_color_mode repr value =
     (let mode_str = lower (get_first_valid_string repr value)
      in case map_of mode_map mode_str of Some m \<Rightarrow> m | None \<Rightarrow> mode_str)"

subsection \<open>Dates\<close>

text \<open>
  \<^verbatim>\<open>datetime.strptime\<close>, for formats built from the directives
  \<^verbatim>\<open>%Y %m %d %H %M %S\<close>, literal characters and single spaces. The library turns the
  format into a regular expression (each directive an alternation, a space the pattern
  \<^verbatim>\<open>\s+\<close>, matching case-insensitively), takes the first match in backtracking order at
  the head of the data, and raises \<^verbatim>\<open>ValueError\<close> when there is none, when the match
  leaves data unconverted, or when the fields are not a date and time.
\<close>

datatype fmt_item = Dir char | Lit char | Space

fun parse_format :: "string \<Rightarrow> fmt_item list" where
  "parse_format [] = []"
| "parse_format [c] = (if c = CHR '' '' then [Space] else [Lit c])"
| "parse_format (c # d # cs) =
     (if c = CHR ''%'' then Dir d # parse_format cs
      else if c = CHR '' '' then Space # parse_format (d # cs)
      else Lit c # parse_format (d # cs))"

text \<open>
  The alternation of a directive, each alternative a sequence of character classes:
  \<^verbatim>\<open>Y: \d\d\d\d\<close>, \<^verbatim>\<open>m: 1[0-2]|0[1-9]|[1-9]\<close>, \<^verbatim>\<open>d: 3[0-1]|[1-2]\d|0[1-9]|[1-9]| [1-9]\<close>,
  \<^verbatim>\<open>H: 2[0-3]|[0-1]\d|\d\<close>, \<^verbatim>\<open>M: [0-5]\d|\d\<close>, \<^verbatim>\<open>S: 6[0-1]|[0-5]\d|\d\<close>.
\<close>

definition directive_alts :: "char \<Rightarrow> string list list" where
  "directive_alts c =
     (let dg = ''0123456789''; nz = ''123456789''
      in if c = CHR ''Y'' then [[dg, dg, dg, dg]]
         else if c = CHR ''m'' then [[''1'', ''012''], [''0'', nz], [nz]]
         else if c = CHR ''d'' then [[''3'', ''01''], [''12'', dg], [''0'', nz], [nz], ['' '', nz]]
         else if c = CHR ''H'' then [[''2'', ''0123''], [''01'', dg], [dg]]
         else if c = CHR ''M'' then [[''012345'', dg], [dg]]
         else if c = CHR ''S'' then [[''6'', ''01''], [''012345'', dg], [dg]]
         else [])"

fun match_classes :: "string list \<Rightarrow> string \<Rightarrow> (string \<times> string) option" where
  "match_classes [] s = Some ([], s)"
| "match_classes (cl # cls) [] = None"
| "match_classes (cl # cls) (x # xs) =
     (if x \<in> set cl
      then (case match_classes cls xs of Some (m, r) \<Rightarrow> Some (x # m, r) | None \<Rightarrow> None)
      else None)"

text \<open>
  The ways one item matches at the head of a string, in the order the backtracking
  matcher tries them: the captured group (if any) and the text still to be matched.
\<close>

fun match_item :: "fmt_item \<Rightarrow> string \<Rightarrow> ((char \<times> string) list \<times> string) list" where
  "match_item (Dir d) s =
     List.map_filter
       (\<lambda>alt. case match_classes alt s of Some (m, r) \<Rightarrow> Some ([(d, m)], r) | None \<Rightarrow> None)
       (directive_alts d)"
| "match_item (Lit c) s =
     (case s of
        [] \<Rightarrow> []
      | x # xs \<Rightarrow> if lower_char x = lower_char c then [([], xs)] else [])"
| "match_item Space s =
     map (\<lambda>k. ([], drop k s)) (rev [1..<Suc (length (takeWhile py_isspace s))])"

fun match_items :: "fmt_item list \<Rightarrow> string \<Rightarrow> ((char \<times> string) list \<times> string) list" where
  "match_items [] s = [([], s)]"
| "match_items (it # its) s =
     concat (map (\<lambda>(g, r). map (\<lambda>(gs, r'). (g @ gs, r')) (match_items its r))
                 (match_item it s))"

record datetime =
  year :: nat
  month :: nat
  day :: nat
  hour :: nat
  minute :: nat
  second :: nat

definition is_leap :: "nat \<Rightarrow> bool" where
  "is_leap y = (y mod 4 = 0 \<and> (y mod 100 \<noteq> 0 \<or> y mod 400 = 0))"

definition days_in_month :: "nat \<Rightarrow> nat \<Rightarrow> nat" where
  "days_in_month y m =
     (if m = 2 then (if is_leap y then 29 else 28)
      else if m \<in> {4, 6, 9, 11} then 30 else 31)"

text \<open>\<^verbatim>\<open>int(text)\<close> of a captured group: digits, after a space in one alternative of \<^verbatim>\<open>%d\<close>.\<close>

definition field_val :: "string \<Rightarrow> nat" where
  "field_val t = digits_val (dropWhile py_isspace t)"

definition strptime :: "string \<Rightarrow> string \<Rightarrow> py_error + datetime" where
  "strptime data_string fmt =
     (case match_items (parse_format fmt) data_string of
        [] \<Rightarrow> Inl ValueError
      | (found, rest) # _ \<Rightarrow>
          if rest \<noteq> [] then Inl ValueError
          else (let fld = (\<lambda>d dflt. case map_of found d of Some t \<Rightarrow> field_val t | None \<Rightarrow> dflt);
                    y = fld CHR ''Y'' 1900; m = fld CHR ''m'' 1; d = fld CHR ''d'' 1;
                    hh = fld CHR ''H'' 0; mm = fld CHR ''M'' 0; ss = fld CHR ''S'' 0
                in if y < 1 \<or> 9999 < y \<or> m < 1 \<or> 12 < m \<or> d < 1 \<or> days_in_month y m < d
                      \<or> 23 < hh \<or> 59 < mm \<or> 59 < ss
                   then Inl ValueError
                   else Inr \<lparr>year = y, month = m, day = d, hour = hh, minute = mm, second = ss\<rparr>))"

text \<open>Decimal digits of a natural number, and \<^verbatim>\<open>%0kd\<close> padding.\<close>

fun str_nat :: "nat \<Rightarrow> string" where
  "str_nat n = (if n < 10 then [char_of (48 + n)] else str_nat (n div 10) @ [char_of (48 + n mod 10)])"

definition zfill :: "nat \<Rightarrow> string \<Rightarrow> string" where
  "zfill k s = replicate (k - length s) (CHR ''0'') @ s"

text \<open>\<^verbatim>\<open>datetime.isoformat()\<close> of a value without microseconds and without time zone.\<close>

definition isoformat :: "datetime \<Rightarrow> string" where
  "isoformat dt =
     zfill 4 (str_nat (year dt)) @ ''-'' @ zfill 2 (str_nat (month dt)) @ ''-''
       @ zfill 2 (str_nat (day dt)) @ ''T'' @ zfill 2 (str_nat (hour dt)) @ '':''
       @ zfill 2 (str_nat (minute dt)) @ '':'' @ zfill 2 (str_nat (second dt))"

text \<open>
  The loop over the remaining formats: \<^verbatim>\<open>ValueError\<close> is caught and the next format
  tried; any other exception would leave the function. After the loop the string is
  returned as it is.
\<close>

fun try_formats :: "string \<Rightarrow> string list \<Rightarrow> py_error + pyval" where
  "try_formats value_str [] = Inr (PStr value_str)"
| "try_formats value_str (fmt # fmts) =
     (case strptime value_str fmt of
        Inr dt \<Rightarrow> Inr (PStr (isoformat dt))
      | Inl e \<Rightarrow> if e = ValueError then try_formats value_str fmts else Inl e)"

definition formats :: "string list" where
  "formats = [''%Y-%m-%d %H:%M:%S'', ''%Y/%m/%d %H:%M:%S'', ''%Y-%m-%dT%H:%M:%S'',
              ''%Y-%m-%d'', ''%Y:%m:%d'']"

definition datetime_to_iso8601 :: "(pyval \<Rightarrow> string) \<Rightarrow> pyval \<Rightarrow> py_error + pyval" where
  "datetime_to_iso8601 repr value =
     (if \<not> py_truthy value then Inr PNone
      else (let value_str = get_first_valid_string repr value
            in if value_str = [] then Inr PNone
               else (case (if CHR '':'' \<in> set value_str \<and> CHR '' '' \<in> set value_str
                           then strptime value_str ''%Y:%m:%d %H:%M:%S''
                           else Inl ValueError) of
                       Inr dt \<Rightarrow> Inr (PStr (isoformat dt))
                     | Inl e \<Rightarrow> if e = ValueError then try_formats value_str formats
                               else Inl e)))"

subsection \<open>Dispatch on the transformation name\<close>

definition apply_transformation :: "(pyval \<Rightarrow> string) \<Rightarrow> pyval \<Rightarrow> string \<Rightarrow> py_error + pyval" where
  "apply_transformation repr value transformation =
     (if transformation = ''clean_string'' then Inr (PStr (clean_string repr value))
      else if transformation = ''first_available_numeric'' then Inr (parse_first_number value)
      else if transformation = ''first_available_string''
        then Inr (PStr (get_first_valid_string repr value))
      else if transformation = ''convert_to_iso8601'' then datetime_to_iso8601 repr value
      else if transformation = ''dpi_to_nanometers'' then resolution_to_pixel_size value
      else if transformation = ''standardize_color_mode''
        then Inr (PStr (normalize_color_mode repr value))
      else Inr value)"

section \<open>Path resolver\<close>

text \<open>
  The loop of \<^verbatim>\<open>extract_value_from_source\<close>: a step descends when the current value is a
  \<^verbatim>\<open>dict\<close> that has the path segment, a string, among its keys; in every other case the
  function returns \<^verbatim>\<open>None\<close> at once.
\<close>

fun descend :: "pyval \<Rightarrow> string list \<Rightarrow> pyval" where
  "descend current [] = current"
| "descend current (part # parts) =
     (case current of
        PDict d \<Rightarrow> (case map_of d (PStr part) of
                      Some v \<Rightarrow> descend v parts
                    | None \<Rightarrow> PNone)
      | _ \<Rightarrow> PNone)"

definition extract_value_from_source :: "(pyval \<times> pyval) list \<Rightarrow> string \<Rightarrow> pyval" where
  "extract_value_from_source metadata source_path =
     descend (PDict metadata) (split_on (CHR ''.'') source_path)"

section \<open>Field resolver\<close>

datatype source_spec = OneSource string | Sources "string list"

record field_config =
  fc_source :: "source_spec option"
  fc_transformation :: "string option"
  fc_extraction :: "string option"
  fc_unit :: "string option"

text \<open>\<^verbatim>\<open>field_config.get("source", [])\<close>, a single string standing for a list of one.\<close>

definition source_list :: "field_config \<Rightarrow> string list" where
  "source_list fc =
     (case fc_source fc of
        None \<Rightarrow> []
      | Some (OneSource s) \<Rightarrow> [s]
      | Some (Sources ss) \<Rightarrow> ss)"

text \<open>\<^verbatim>\<open>Path(p).name\<close> on a POSIX path: the last component, empty and \<^verbatim>\<open>.\<close> ones dropped.\<close>

definition path_name :: "string \<Rightarrow> string" where
  "path_name p =
     (case rev (filter (\<lambda>w. w \<noteq> [] \<and> w \<noteq> ''.'') (split_on (CHR ''/'') p)) of
        [] \<Rightarrow> []
      | w # ws \<Rightarrow> w)"

text \<open>\<^verbatim>\<open>d.get(key, {})\<close> on a value that has to be a \<^verbatim>\<open>dict\<close> to have the method.\<close>

definition get_or_empty :: "pyval \<Rightarrow> string \<Rightarrow> py_error + pyval" where
  "get_or_empty d k =
     (case d of
        PDict kvs \<Rightarrow> Inr (case map_of kvs (PStr k) of Some v \<Rightarrow> v | None \<Rightarrow> PDict [])
      | _ \<Rightarrow> Inl AttributeError)"

text \<open>
  The value a source names: the three virtual sources read the tree directly, every other
  source is a dotted path.
\<close>

definition source_value :: "(pyval \<times> pyval) list \<Rightarrow> string \<Rightarrow> py_error + pyval" where
  "source_value metadata source =
     (if source = ''filename'' then
        (case map_of metadata (PStr ''file_path'') of
           None \<Rightarrow> Inl KeyError
         | Some (PStr p) \<Rightarrow> Inr (PStr (path_name p))
         | Some _ \<Rightarrow> Inl TypeError)
      else if source = ''file_size'' then
        (case map_of metadata (PStr ''file_size'') of
           None \<Rightarrow> Inl KeyError
         | Some v \<Rightarrow> Inr v)
      else if source = ''format'' then
        (case get_or_empty (PDict metadata) ''pillow'' of
           Inl e \<Rightarrow> Inl e
         | Inr pil \<Rightarrow>
             (case get_or_empty pil ''basic_info'' of
                Inl e \<Rightarrow> Inl e
              | Inr (PDict info) \<Rightarrow>
                  Inr (case map_of info (PStr ''format'') of Some v \<Rightarrow> v | None \<Rightarrow> PNone)
              | Inr _ \<Rightarrow> Inl AttributeError))
      else Inr (extract_value_from_source metadata source))"

text \<open>The transformation pass: skipped when no transformation (or an empty one) is declared.\<close>

definition transformation_step ::
  "(pyval \<Rightarrow> string) \<Rightarrow> field_config \<Rightarrow> pyval \<Rightarrow> py_error + pyval" where
  "transformation_step repr fc value =
     (case fc_transformation fc of
        None \<Rightarrow> Inr value
      | Some t \<Rightarrow> if t \<noteq> [] then apply_transformation repr value t else Inr value)"

text \<open>The extraction pass, on the name \<^verbatim>\<open>field_config.get("extraction", "as_is")\<close>.\<close>

definition extraction_step :: "(pyval \<Rightarrow> string) \<Rightarrow> pyval \<Rightarrow> string \<Rightarrow> py_error + pyval" where
  "extraction_step repr value extraction =
     (if extraction = ''first_available_numeric'' then Inr (parse_first_number value)
      else if extraction = ''first_available_string''
        then Inr (PStr (get_first_valid_string repr value))
      else if extraction \<in> set [''resolution_to_pixel_size'', ''dpi_to_nanometers'']
        then resolution_to_pixel_size value
      else Inr value)"

definition extraction_name :: "field_config \<Rightarrow> string" where
  "extraction_name fc = (case fc_extraction fc of Some e \<Rightarrow> e | None \<Rightarrow> ''as_is'')"

text \<open>
  The loop over the sources. An exception raised while a source is read or processed
  leaves the function; a source whose value is \<^verbatim>\<open>None\<close>, before or after the two passes,
  lets the loop go on.
\<close>

fun resolve_sources ::
  "(pyval \<Rightarrow> string) \<Rightarrow> (pyval \<times> pyval) list \<Rightarrow> field_config \<Rightarrow> string list \<Rightarrow> py_error + pyval"
where
  "resolve_sources repr metadata fc [] = Inr PNone"
| "resolve_sources repr metadata fc (source # rest) =
     (case source_value metadata source of
        Inl e \<Rightarrow> Inl e
      | Inr value \<Rightarrow>
          if value \<noteq> PNone then
            (case transformation_step repr fc value of
               Inl e \<Rightarrow> Inl e
             | Inr v1 \<Rightarrow>
                 (case extraction_step repr v1 (extraction_name fc) of
                    Inl e \<Rightarrow> Inl e
                  | Inr v2 \<Rightarrow>
                      if v2 \<noteq> PNone then Inr v2
                      else resolve_sources repr metadata fc rest))
          else resolve_sources repr metadata fc rest)"

definition resolve_field_value ::
  "(pyval \<Rightarrow> string) \<Rightarrow> (pyval \<times> pyval) list \<Rightarrow> field_config \<Rightarrow> py_error + pyval" where
  "resolve_field_value repr metadata fc = resolve_sources repr metadata fc (source_list fc)"

section \<open>Header assembler\<close>

type_synonym header_section = "string \<rightharpoonup> pyval"
type_synonym header = "string \<rightharpoonup> header_section"

record connector_validation =
  required_fields :: "string list option"
  optional_fields :: "string list option"

record connector =
  mappings :: "(string \<times> (string \<times> field_config) list) list option"
  validation :: "connector_validation option"

definition initial_header :: header where
  "initial_header =
     [''General Section'' \<mapsto> Map.empty, ''Method Specific'' \<mapsto> Map.empty,
      ''Tool Specific'' \<mapsto> Map.empty, ''Customer Specific'' \<mapsto> Map.empty,
      ''Data Evaluation'' \<mapsto> Map.empty, ''History'' \<mapsto> Map.empty]"

definition unit_fields :: "string list" where
  "unit_fields = [''Image Width'', ''Image Height'', ''File Size'', ''Pixel Width'', ''Pixel Height'']"

text \<open>What is stored for a field whose value is not \<^verbatim>\<open>None\<close>: the envelope or the value.\<close>

definition field_entry :: "field_config \<Rightarrow> string \<Rightarrow> pyval \<Rightarrow> pyval" where
  "field_entry fc field_name value =
     (case fc_unit fc of
        None \<Rightarrow> value
      | Some u \<Rightarrow>
          if u \<noteq> [] \<and> field_name \<in> set unit_fields
          then PDict [(PStr ''Value'', value), (PStr ''Unit'', PStr u)]
          else value)"

text \<open>The loop over the fields of one connector section.\<close>

fun map_fields ::
  "(pyval \<Rightarrow> string) \<Rightarrow> (pyval \<times> pyval) list \<Rightarrow> string \<Rightarrow> (string \<times> field_config) list
     \<Rightarrow> header \<Rightarrow> py_error + header"
where
  "map_fields repr metadata target [] hdr = Inr hdr"
| "map_fields repr metadata target ((field_name, fc) # rest) hdr =
     (case resolve_field_value repr metadata fc of
        Inl e \<Rightarrow> Inl e
      | Inr value \<Rightarrow>
          if value \<noteq> PNone then
            (case hdr target of
               None \<Rightarrow> Inl KeyError
             | Some sec \<Rightarrow>
                 map_fields repr metadata target rest
                   (hdr(target \<mapsto> sec(field_name \<mapsto> field_entry fc field_name value))))
          else map_fields repr metadata target rest hdr)"

definition target_section :: "string \<Rightarrow> string option" where
  "target_section section_name =
     (if section_name = ''general_section'' then Some ''General Section''
      else if section_name = ''method_specific'' then Some ''Method Specific''
      else if section_name = ''tool_specific'' then Some ''Tool Specific''
      else None)"

text \<open>The loop over the sections of the connector; a section without target is skipped.\<close>

fun map_sections ::
  "(pyval \<Rightarrow> string) \<Rightarrow> (pyval \<times> pyval) list \<Rightarrow> (string \<times> (string \<times> field_config) list) list
     \<Rightarrow> header \<Rightarrow> py_error + header"
where
  "map_sections repr metadata [] hdr = Inr hdr"
| "map_sections repr metadata ((section_name, section_mappings) # rest) hdr =
     (case target_section section_name of
        None \<Rightarrow> map_sections repr metadata rest hdr
      | Some target \<Rightarrow>
          (case map_fields repr metadata target section_mappings hdr of
             Inl e \<Rightarrow> Inl e
           | Inr hdr' \<Rightarrow> map_sections repr metadata rest hdr'))"

text \<open>
  The header metadata added after the mappings. \<open>now\<close> is \<^verbatim>\<open>datetime.now().isoformat()\<close>
  and \<open>file_dir\<close> is \<^verbatim>\<open>str(Path(tiff_file).parent)\<close>.
\<close>

definition add_header_metadata :: "string \<Rightarrow> string \<Rightarrow> header \<Rightarrow> py_error + header" where
  "add_header_metadata now file_dir hdr =
     (case hdr ''General Section'' of
        None \<Rightarrow> Inl KeyError
      | Some g \<Rightarrow>
          (let g1 = g(''Header Type'' \<mapsto> PStr ''FA4.0 standardized header'',
                      ''Version'' \<mapsto> PStr ''v1.0'',
                      ''Time Stamp'' \<mapsto> PStr now);
               g2 = (if g1 ''File Path'' = None then g1(''File Path'' \<mapsto> PStr file_dir) else g1)
           in Inr (hdr(''General Section'' \<mapsto> g2))))"

text \<open>
  \<^verbatim>\<open>generate_fa40_header\<close>, from the metadata the extractor returned for the file; printing
  and the optional write of the result to a file are left out.
\<close>

definition generate_fa40_header ::
  "(pyval \<Rightarrow> string) \<Rightarrow> connector \<Rightarrow> (pyval \<times> pyval) list \<Rightarrow> string \<Rightarrow> string
     \<Rightarrow> py_error + header" where
  "generate_fa40_header repr conn metadata now file_dir =
     (case map_sections repr metadata (case mappings conn of Some ms \<Rightarrow> ms | None \<Rightarrow> [])
             initial_header of
        Inl e \<Rightarrow> Inl e
      | Inr hdr \<Rightarrow> add_header_metadata now file_dir hdr)"

section \<open>Validator\<close>

record validation_results =
  missing_required :: "string list"
  present_optional :: "string list"
  validation_errors :: "string list"

text \<open>\<^verbatim>\<open>s.split(sep, 1)\<close>, and the unpacking of its result into two names.\<close>

definition split_once :: "char \<Rightarrow> string \<Rightarrow> string list" where
  "split_once sep s =
     (if sep \<in> set s
      then [takeWhile (\<lambda>c. c \<noteq> sep) s, tl (dropWhile (\<lambda>c. c \<noteq> sep) s)]
      else [s])"

definition unpack2 :: "string list \<Rightarrow> py_error + (string \<times> string)" where
  "unpack2 xs = (case xs of [a, b] \<Rightarrow> Inr (a, b) | _ \<Rightarrow> Inl ValueError)"

definition section_map :: "(string \<times> string) list" where
  "section_map =
     [(''general_section'', ''General Section''), (''method_specific'', ''Method Specific''),
      (''tool_specific'', ''Tool Specific'')]"

definition actual_section :: "string \<Rightarrow> string" where
  "actual_section section = (case map_of section_map section of Some s \<Rightarrow> s | None \<Rightarrow> section)"

text \<open>\<^verbatim>\<open>actual_section in header and field in header[actual_section]\<close>.\<close>

definition in_header :: "header \<Rightarrow> string \<Rightarrow> string \<Rightarrow> bool" where
  "in_header hdr sec field =
     (case hdr sec of None \<Rightarrow> False | Some entries \<Rightarrow> entries field \<noteq> None)"

fun check_required :: "header \<Rightarrow> string list \<Rightarrow> string list \<Rightarrow> py_error + string list" where
  "check_required hdr [] missing = Inr missing"
| "check_required hdr (field_path # rest) missing =
     (case unpack2 (split_once (CHR ''.'') field_path) of
        Inl e \<Rightarrow> Inl e
      | Inr (section, field) \<Rightarrow>
          if \<not> in_header hdr (actual_section section) field
          then check_required hdr rest (missing @ [field_path])
          else check_required hdr rest missing)"

fun check_optional :: "header \<Rightarrow> string list \<Rightarrow> string list \<Rightarrow> py_error + string list" where
  "check_optional hdr [] present = Inr present"
| "check_optional hdr (field_path # rest) present =
     (case unpack2 (split_once (CHR ''.'') field_path) of
        Inl e \<Rightarrow> Inl e
      | Inr (section, field) \<Rightarrow>
          if in_header hdr (actual_section section) field
          then check_optional hdr rest (present @ [field_path])
          else check_optional hdr rest present)"

definition validate_header :: "connector \<Rightarrow> header \<Rightarrow> py_error + validation_results" where
  "validate_header conn hdr =
     (case validation conn of
        None \<Rightarrow> Inr \<lparr>missing_required = [], present_optional = [], validation_errors = []\<rparr>
      | Some v \<Rightarrow>
          (case check_required hdr (case required_fields v of Some r \<Rightarrow> r | None \<Rightarrow> []) [] of
             Inl e \<Rightarrow> Inl e
           | Inr missing \<Rightarrow>
               (case check_optional hdr (case optional_fields v of Some r \<Rightarrow> r | None \<Rightarrow> []) [] of
                  Inl e \<Rightarrow> Inl e
                | Inr present \<Rightarrow>
                    Inr \<lparr>missing_required = missing, present_optional = present,
                         validation_errors = []\<rparr>)))"

section \<open>Names used in the statements\<close>

text \<open>The names the dispatch on transformations and the extraction pass know.\<close>

definition known_transformations :: "string list" where
  "known_transformations =
     [''clean_string'', ''first_available_numeric'', ''first_available_string'',
      ''convert_to_iso8601'', ''dpi_to_nanometers'', ''standardize_color_mode'']"

definition known_extractions :: "string list" where
  "known_extractions =
     [''first_available_numeric'', ''first_available_string'', ''resolution_to_pixel_size'',
      ''dpi_to_nanometers'']"

text \<open>The required and optional paths a connector declares, if it has a validation part.\<close>

definition required_paths :: "connector \<Rightarrow> string list" where
  "required_paths conn =
     (case validation conn of
        None \<Rightarrow> []
      | Some v \<Rightarrow> (case required_fields v of Some r \<Rightarrow> r | None \<Rightarrow> []))"

definition optional_paths :: "connector \<Rightarrow> string list" where
  "optional_paths conn =
     (case validation conn of
        None \<Rightarrow> []
      | Some v \<Rightarrow> (case optional_fields v of Some r \<Rightarrow> r | None \<Rightarrow> []))"

text \<open>
  The two parts of a path \<^verbatim>\<open>section.field\<close>, cut at its first point, and whether the
  header has the field the path names.
\<close>

definition has_dot :: "string \<Rightarrow> bool" where
  "has_dot p = (CHR ''.'' \<in> set p)"

definition path_section :: "string \<Rightarrow> string" where
  "path_section p = takeWhile (\<lambda>c. c \<noteq> CHR ''.'') p"

definition path_field :: "string \<Rightarrow> string" where
  "path_field p = tl (dropWhile (\<lambda>c. c \<noteq> CHR ''.'') p)"

definition path_present :: "header \<Rightarrow> string \<Rightarrow> bool" where
  "path_present hdr p = in_header hdr (actual_section (path_section p)) (path_field p)"

text \<open>The sections of the connector's mappings, none when it has no mappings.\<close>

definition connector_sections :: "connector \<Rightarrow> (string \<times> (string \<times> field_config) list) list" where
  "connector_sections conn = (case mappings conn of Some ms \<Rightarrow> ms | None \<Rightarrow> [])"

text \<open>A field definition declares a unit when it has a non-empty one; the envelope.\<close>

definition declares_unit :: "field_config \<Rightarrow> bool" where
  "declares_unit fc = (case fc_unit fc of None \<Rightarrow> False | Some u \<Rightarrow> u \<noteq> [])"

definition unit_of :: "field_config \<Rightarrow> string" where
  "unit_of fc = (case fc_unit fc of None \<Rightarrow> [] | Some u \<Rightarrow> u)"

definition unit_envelope :: "pyval \<Rightarrow> string \<Rightarrow> pyval" where
  "unit_envelope value u = PDict [(PStr ''Value'', value), (PStr ''Unit'', PStr u)]"

text \<open>
  The final value of one source: the value the source names, after the transformation
  and then the extraction; \<^verbatim>\<open>None\<close> when the source names no value.
\<close>

definition final_value ::
  "(pyval \<Rightarrow> string) \<Rightarrow> (pyval \<times> pyval) list \<Rightarrow> field_config \<Rightarrow> string \<Rightarrow> py_error + pyval" where
  "final_value repr metadata fc source =
     (case source_value metadata source of
        Inl e \<Rightarrow> Inl e
      | Inr value \<Rightarrow>
          if value = PNone then Inr PNone
          else (case transformation_step repr fc value of
                  Inl e \<Rightarrow> Inl e
                | Inr v1 \<Rightarrow> extraction_step repr v1 (extraction_name fc)))"

text \<open>\<^verbatim>\<open>str(n)\<close> of an integer: its decimal digits, after a minus sign when negative.\<close>

definition str_int :: "int \<Rightarrow> string" where
  "str_int n = (if n < 0 then CHR ''-'' # str_nat (nat (- n)) else str_nat (nat n))"

definition all_digits :: "string \<Rightarrow> bool" where
  "all_digits ds = list_all is_digit ds"




text \<open>
  The fields a header can owe to the connector, and the ones it owes to the assembler: a
  field is declared for an output section when a section of the mappings that the
  assembler maps to this output section has a field definition under the field's name;
  it is injected when it is one of the four fields of the General Section that the header
  metadata writes.
\<close>

definition declared :: "connector \<Rightarrow> string \<Rightarrow> string \<Rightarrow> bool" where
  "declared conn sec field =
     list_ex (\<lambda>(section_name, flds). target_section section_name = Some sec
                \<and> field \<in> set (map fst flds))
       (connector_sections conn)"

definition injected :: "string \<Rightarrow> string \<Rightarrow> bool" where
  "injected sec field =
     (sec = ''General Section''
      \<and> field \<in> set [''Header Type'', ''Version'', ''Time Stamp'', ''File Path''])"


section \<open>Unknown transformation and extraction names\<close>

lemma apply_transformation_unknown:
  "t \<notin> set known_transformations \<Longrightarrow> apply_transformation repr v t = Inr v"
  by (simp add: known_transformations_def apply_transformation_def)

lemma extraction_step_unknown:
  "e \<notin> set known_extractions \<Longrightarrow> extraction_step repr v e = Inr v"
  by (simp add: known_extractions_def extraction_step_def)

text \<open>
  C6. A transformation name outside the known set makes \<open>apply_transformation\<close> return
  the value unchanged, and an extraction name outside the known set makes the extraction
  pass of the field resolver return the value unchanged; neither raises. A field that
  declares two unknown names therefore resolves a single source to the value found there.
\<close>

theorem unknown_names_act_as_identity:
  "(t \<notin> set known_transformations \<longrightarrow> apply_transformation repr v t = Inr v)
   \<and> (e \<notin> set known_extractions \<longrightarrow> extraction_step repr v e = Inr v)
   \<and> (source_value md s = Inr v \<and> fc_transformation fc = Some t
        \<and> t \<notin> set known_transformations \<and> extraction_name fc \<notin> set known_extractions
       \<longrightarrow> resolve_sources repr md fc [s] = Inr v)"
  by (auto simp: apply_transformation_unknown extraction_step_unknown transformation_step_def)

theorem unknown_names_act_as_identity_witness:
  "apply_transformation (\<lambda>_. []) (PStr ''test'') ''unknown_transformation'' = Inr (PStr ''test'')
   \<and> extraction_step (\<lambda>_. []) (PStr ''test'') ''as_is'' = Inr (PStr ''test'')
   \<and> resolve_sources (\<lambda>_. []) [(PStr ''a'', PStr ''test'')]
        \<lparr>fc_source = Some (OneSource ''a''), fc_transformation = Some ''unknown_transformation'',
         fc_extraction = Some ''file_metadata'', fc_unit = None\<rparr> [''a''] = Inr (PStr ''test'')"
  using unknown_names_act_as_identity [of "''unknown_transformation''" "\<lambda>_. []" "PStr ''test''"
      "''as_is''" "[(PStr ''a'', PStr ''test'')]" "''a''"
      "\<lparr>fc_source = Some (OneSource ''a''), fc_transformation = Some ''unknown_transformation'',
         fc_extraction = Some ''file_metadata'', fc_unit = None\<rparr>"]
  by (simp add: known_transformations_def known_extractions_def source_value_def
      extract_value_from_source_def extraction_name_def)

section \<open>Numeric parsing of printed numbers\<close>

lemma digit_char: "k < 10 \<Longrightarrow> is_digit (char_of (48 + k)) \<and> digit_val (char_of (48 + k)) = k"
  by (simp add: is_digit_def digit_val_def)

lemma digits_val_snoc: "digits_val (ds @ [c]) = 10 * digits_val ds + digit_val c"
  by (simp add: digits_val_def)

lemma str_nat_digits: "all_digits (str_nat n) \<and> str_nat n \<noteq> [] \<and> digits_val (str_nat n) = n"
proof (induction n rule: str_nat.induct)
  case (1 n)
  show ?case
  proof (cases "n < 10")
    case True
    then show ?thesis
      using digit_char [of n] by (subst (1 2 3) str_nat.simps) (simp add: all_digits_def digits_val_def)
  next
    case False
    with 1 have ih: "all_digits (str_nat (n div 10))" "digits_val (str_nat (n div 10)) = n div 10"
      by simp_all
    have d: "is_digit (char_of (48 + n mod 10))" "digit_val (char_of (48 + n mod 10)) = n mod 10"
      using digit_char [of "n mod 10"] by simp_all
    from False ih d show ?thesis
      by (subst (1 2 3) str_nat.simps) (simp add: all_digits_def digits_val_snoc)
  qed
qed

lemma digit_not_special: "is_digit c \<Longrightarrow> c \<noteq> CHR ''-'' \<and> c \<noteq> CHR ''.''"
  by (auto simp: is_digit_def)

lemma all_digits_takeWhile:
  "all_digits ds \<Longrightarrow> takeWhile is_digit (ds @ rest) = ds @ takeWhile is_digit rest
     \<and> dropWhile is_digit (ds @ rest) = dropWhile is_digit rest"
  by (induction ds) (simp_all add: all_digits_def)

lemma all_digits_no_point:
  "all_digits ds \<Longrightarrow> CHR ''.'' \<notin> set ds \<and> CHR ''-'' \<notin> set ds"
  using digit_not_special by (induction ds) (auto simp: all_digits_def)

lemma match_unsigned_digits:
  assumes "all_digits ds" and "ds \<noteq> []"
  shows "match_unsigned ds = Some ds"
proof -
  from all_digits_takeWhile [OF assms(1), of "[]"]
  have t: "takeWhile is_digit ds = ds" "dropWhile is_digit ds = []" by simp_all
  show ?thesis unfolding match_unsigned_def t Let_def using assms(2) by simp
qed

lemma match_unsigned_decimal:
  assumes "all_digits a" and "a \<noteq> []" and "all_digits b"
  shows "match_unsigned (a @ CHR ''.'' # b) = Some (a @ CHR ''.'' # b)"
proof -
  have p: "\<not> is_digit (CHR ''.'')" by (simp add: is_digit_def)
  from all_digits_takeWhile [OF assms(1), of "CHR ''.'' # b"] p
  have t: "takeWhile is_digit (a @ CHR ''.'' # b) = a"
          "dropWhile is_digit (a @ CHR ''.'' # b) = CHR ''.'' # b"
    by simp_all
  from all_digits_takeWhile [OF assms(3), of "[]"] have tb: "takeWhile is_digit b = b" by simp
  show ?thesis unfolding match_unsigned_def t Let_def using assms(2) by (simp add: tb)
qed

lemma match_number_at_unsigned:
  "s \<noteq> [] \<Longrightarrow> hd s \<noteq> CHR ''-'' \<Longrightarrow> match_number_at s = match_unsigned s"
  by (cases s) simp_all

lemma all_digits_hd: "all_digits ds \<Longrightarrow> ds \<noteq> [] \<Longrightarrow> hd ds \<noteq> CHR ''-''"
  using digit_not_special by (cases ds) (auto simp: all_digits_def)

lemma first_number_head:
  "match_number_at s = Some m \<Longrightarrow> first_number s = Some m"
  by (cases s) simp_all

lemma parse_str_int: "parse_first_number (PStr (str_int n)) = PInt n"
proof (cases "n < 0")
  case True
  let ?ds = "str_nat (nat (- n))"
  from str_nat_digits [of "nat (- n)"]
  have d: "all_digits ?ds" "?ds \<noteq> []" "digits_val ?ds = nat (- n)" by simp_all
  from match_unsigned_digits [OF d(1,2)]
  have "match_number_at (CHR ''-'' # ?ds) = Some (CHR ''-'' # ?ds)" by simp
  then have "first_number (CHR ''-'' # ?ds) = Some (CHR ''-'' # ?ds)" by (rule first_number_head)
  moreover from all_digits_no_point [OF d(1)] have "CHR ''.'' \<notin> set (CHR ''-'' # ?ds)" by simp
  moreover from True d(3) have "int_of_match (CHR ''-'' # ?ds) = n" by (simp add: int_of_match_def)
  ultimately show ?thesis using True
    by (simp add: str_int_def parse_number_text_def number_of_match_def)
next
  case False
  let ?ds = "str_nat (nat n)"
  from str_nat_digits [of "nat n"]
  have d: "all_digits ?ds" "?ds \<noteq> []" "digits_val ?ds = nat n" by simp_all
  from all_digits_hd [OF d(1,2)] have h: "hd ?ds \<noteq> CHR ''-''" .
  from match_unsigned_digits [OF d(1,2)] match_number_at_unsigned [OF d(2) h]
  have "match_number_at ?ds = Some ?ds" by simp
  then have "first_number ?ds = Some ?ds" by (rule first_number_head)
  moreover from all_digits_no_point [OF d(1)] have "CHR ''.'' \<notin> set ?ds" by simp
  moreover from False d(2,3) h have "int_of_match ?ds = n"
    by (cases ?ds) (simp_all add: int_of_match_def)
  ultimately show ?thesis using False
    by (simp add: str_int_def parse_number_text_def number_of_match_def)
qed

lemma float_of_match_decimal:
  assumes "all_digits a" and "a \<noteq> []"
  shows "float_of_match (a @ CHR ''.'' # b)
           = of_nat (digits_val a) + of_nat (digits_val b) / 10 ^ length b"
    and "float_of_match (CHR ''-'' # a @ CHR ''.'' # b)
           = - (of_nat (digits_val a) + of_nat (digits_val b) / 10 ^ length b)"
proof -
  from all_digits_no_point [OF assms(1)] have np: "\<forall>c \<in> set a. c \<noteq> CHR ''.''" by auto
  then have t: "takeWhile (\<lambda>c. c \<noteq> CHR ''.'') (a @ CHR ''.'' # b) = a"
    by (simp add: takeWhile_append)
  from all_digits_hd [OF assms] assms(2) obtain c cs where a: "a = c # cs" and c: "c \<noteq> CHR ''-''"
    by (cases a) auto
  have "float_of_match ((c # cs) @ CHR ''.'' # b)
           = of_nat (digits_val (c # cs)) + of_nat (digits_val b) / 10 ^ length b"
    using c t [unfolded a] by (simp add: float_of_match_def Let_def)
  then show "float_of_match (a @ CHR ''.'' # b)
           = of_nat (digits_val a) + of_nat (digits_val b) / 10 ^ length b"
    by (simp only: a)
  show "float_of_match (CHR ''-'' # a @ CHR ''.'' # b)
           = - (of_nat (digits_val a) + of_nat (digits_val b) / 10 ^ length b)"
    by (simp add: float_of_match_def Let_def t)
qed

lemma parse_decimal:
  assumes "all_digits a" and "a \<noteq> []" and "all_digits b"
  shows "parse_first_number (PStr (a @ CHR ''.'' # b))
           = PFloat (of_nat (digits_val a) + of_nat (digits_val b) / 10 ^ length b)"
    and "parse_first_number (PStr (CHR ''-'' # a @ CHR ''.'' # b))
           = PFloat (- (of_nat (digits_val a) + of_nat (digits_val b) / 10 ^ length b))"
proof -
  let ?t = "a @ CHR ''.'' # b"
  from assms(2) have ne: "?t \<noteq> []" "hd ?t = hd a" by simp_all
  with all_digits_hd [OF assms(1,2)] have h: "hd ?t \<noteq> CHR ''-''" by simp
  from match_unsigned_decimal [OF assms] match_number_at_unsigned [OF ne(1) h]
  have "match_number_at ?t = Some ?t" by simp
  then have f: "first_number ?t = Some ?t" by (rule first_number_head)
  from match_unsigned_decimal [OF assms]
  have "match_number_at (CHR ''-'' # ?t) = Some (CHR ''-'' # ?t)" by simp
  then have g: "first_number (CHR ''-'' # ?t) = Some (CHR ''-'' # ?t)" by (rule first_number_head)
  from f float_of_match_decimal(1) [OF assms(1,2), of b]
  show "parse_first_number (PStr ?t)
           = PFloat (of_nat (digits_val a) + of_nat (digits_val b) / 10 ^ length b)"
    by (simp add: parse_number_text_def number_of_match_def)
  from g float_of_match_decimal(2) [OF assms(1,2), of b]
  show "parse_first_number (PStr (CHR ''-'' # ?t))
           = PFloat (- (of_nat (digits_val a) + of_nat (digits_val b) / 10 ^ length b))"
    by (simp add: parse_number_text_def number_of_match_def)
qed

text \<open>
  C9. For every integer \<open>n\<close>, \<open>parse_first_number\<close> applied to the decimal text of
  \<open>n\<close> gives the integer \<open>n\<close>. Applied to a text in positional notation (an
  optional minus sign, digits, a point, digits), which is how floats of moderate size are
  printed, it gives the float this text denotes. On any string the result is absent when
  nothing matches, a float when the matched text has a point and an integer when it has
  none.
\<close>

theorem parse_first_number_round_trip:
  "parse_first_number (PStr (str_int n)) = PInt n
   \<and> (all_digits a \<and> a \<noteq> [] \<and> all_digits b \<longrightarrow>
        parse_first_number (PStr (a @ ''.'' @ b))
          = PFloat (of_nat (digits_val a) + of_nat (digits_val b) / 10 ^ length b)
      \<and> parse_first_number (PStr (''-'' @ a @ ''.'' @ b))
          = PFloat (- (of_nat (digits_val a) + of_nat (digits_val b) / 10 ^ length b)))
   \<and> (first_number s = None \<longrightarrow> parse_first_number (PStr s) = PNone)
   \<and> (first_number s = Some m \<longrightarrow>
        (CHR ''.'' \<in> set m \<longrightarrow> parse_first_number (PStr s) = PFloat (float_of_match m))
      \<and> (CHR ''.'' \<notin> set m \<longrightarrow> parse_first_number (PStr s) = PInt (int_of_match m)))"
  using parse_str_int [of n] parse_decimal [of a b]
  by (simp add: parse_number_text_def number_of_match_def)

theorem parse_first_number_round_trip_witness:
  "parse_first_number (PStr (str_int (- 42))) = PInt (- 42)
   \<and> parse_first_number (PStr ''3.14159'') = PFloat (3 + 14159 / 10 ^ 5)
   \<and> parse_first_number (PStr ''-123.45'') = PFloat (- (123 + 45 / 10 ^ 2))
   \<and> parse_first_number (PStr ''no numbers'') = PNone
   \<and> parse_first_number (PStr ''Image size: 1024x768'') = PInt 1024
   \<and> parse_first_number (PStr ''Resolution: 96.5 DPI'') = PFloat (193 / 2)"
proof -
  have d: "all_digits ''3'' \<and> ''3'' \<noteq> [] \<and> all_digits ''14159''"
          "all_digits ''123'' \<and> ''123'' \<noteq> [] \<and> all_digits ''45''"
    by (simp_all add: all_digits_def is_digit_def)
  have v: "digits_val ''3'' = 3" "digits_val ''14159'' = 14159" "digits_val ''123'' = 123"
    "digits_val ''45'' = 45"
    by (simp_all add: digits_val_def digit_val_def)
  have f: "first_number ''no numbers'' = None"
    "first_number ''Image size: 1024x768'' = Some ''1024''"
    "first_number ''Resolution: 96.5 DPI'' = Some ''96.5''"
    by code_simp+
  have m: "int_of_match ''1024'' = 1024" "float_of_match ''96.5'' = 193 / 2"
    by code_simp+
  from parse_first_number_round_trip [of "- 42" "''3''" "''14159''" "''no numbers''" "[]"] d(1) v f(1)
  have 1: "parse_first_number (PStr (str_int (- 42))) = PInt (- 42)"
    "parse_first_number (PStr ''3.14159'') = PFloat (3 + 14159 / 10 ^ 5)"
    "parse_first_number (PStr ''no numbers'') = PNone"
    by simp_all
  from parse_first_number_round_trip [of 0 "''123''" "''45''" "''Image size: 1024x768''" "''1024''"] d(2) v f(2) m
  have 2: "parse_first_number (PStr ''-123.45'') = PFloat (- (123 + 45 / 10 ^ 2))"
    "parse_first_number (PStr ''Image size: 1024x768'') = PInt 1024"
    by simp_all
  from parse_first_number_round_trip [of 0 "''123''" "''45''" "''Resolution: 96.5 DPI''" "''96.5''"] f(3) m
  have 3: "parse_first_number (PStr ''Resolution: 96.5 DPI'') = PFloat (193 / 2)"
    by simp
  from 1 2 3 show ?thesis by (intro conjI)
qed

text \<open>
  Floats that Python prints in exponent notation or as a word are not recovered: the text
  \<^verbatim>\<open>1e+16\<close> of the float 1e16 and the text \<^verbatim>\<open>1e-05\<close> of the float 0.00001 both
  give the integer 1, and the text \<^verbatim>\<open>inf\<close> gives no value.
\<close>

theorem parse_first_number_exponent_notation:
  "parse_first_number (PStr ''1e+16'') = PInt 1
   \<and> PInt 1 \<noteq> PFloat (10 ^ 16)
   \<and> parse_first_number (PStr ''1e-05'') = PInt 1
   \<and> parse_first_number (PStr ''inf'') = PNone"
  by code_simp

section \<open>Resolution to pixel size\<close>

















section \<open>Dates\<close>



























section \<open>Path resolution\<close>

text \<open>
  C2. The path resolver of the header generator descends mappings by string keys only.
  A tag stored under the integer key 32001 is not reached by the path
  \<^verbatim>\<open>pillow.tags_v2.32001\<close>, and an element of a sequence is not reached by its index:
  both lookups give \<^verbatim>\<open>None\<close>.
\<close>

theorem integer_keys_and_sequences_not_resolved:
  "extract_value_from_source
     [(PStr ''pillow'', PDict [(PStr ''tags_v2'', PDict [(PInt 32001, PStr ''SemiShop v2.1'')])])]
     ''pillow.tags_v2.32001'' = PNone
   \<and> extract_value_from_source
     [(PStr ''tifffile'', PDict [(PStr ''shape'', PList [PInt 1000, PInt 1000, PInt 3])])]
     ''tifffile.shape.0'' = PNone"
  by (simp add: extract_value_from_source_def)

section \<open>Field resolution\<close>

lemma resolve_sources_step:
  "resolve_sources repr md fc (s # ss) =
     (case final_value repr md fc s of
        Inl e \<Rightarrow> Inl e
      | Inr v \<Rightarrow> if v \<noteq> PNone then Inr v else resolve_sources repr md fc ss)"
  by (simp add: final_value_def split: sum.splits)

lemma resolve_sources_skip:
  "\<forall>p \<in> set pre. final_value repr md fc p = Inr PNone \<Longrightarrow>
   resolve_sources repr md fc (pre @ rest) = resolve_sources repr md fc rest"
  by (induction pre) (simp_all add: resolve_sources_step del: resolve_sources.simps)

text \<open>
  What the loop does on sources that can be read: when the sources before some source
  all end in \<^verbatim>\<open>None\<close> (before or after the two passes) and that source has a final
  value other than \<^verbatim>\<open>None\<close>, this value is returned, whatever the later sources are;
  when every source ends in \<^verbatim>\<open>None\<close> the result is \<^verbatim>\<open>None\<close>. The final value of a
  source is the extraction applied to the result of the transformation applied to the
  value the source names.
\<close>

lemma resolve_field_value_first_match:
  "(source_list fc = pre @ s # post
      \<and> (\<forall>p \<in> set pre. final_value repr md fc p = Inr PNone)
      \<and> final_value repr md fc s = Inr v \<and> v \<noteq> PNone
     \<longrightarrow> resolve_field_value repr md fc = Inr v)
   \<and> ((\<forall>p \<in> set (source_list fc). final_value repr md fc p = Inr PNone)
     \<longrightarrow> resolve_field_value repr md fc = Inr PNone)
   \<and> (source_value md s = Inr PNone \<longrightarrow> final_value repr md fc s = Inr PNone)
   \<and> (source_value md s = Inr x \<and> x \<noteq> PNone \<and> transformation_step repr fc x = Inr y
     \<longrightarrow> final_value repr md fc s = extraction_step repr y (extraction_name fc))"
proof (intro conjI impI)
  assume a: "source_list fc = pre @ s # post
      \<and> (\<forall>p \<in> set pre. final_value repr md fc p = Inr PNone)
      \<and> final_value repr md fc s = Inr v \<and> v \<noteq> PNone"
  then have "resolve_sources repr md fc (pre @ s # post) = resolve_sources repr md fc (s # post)"
    using resolve_sources_skip by blast
  also from a have "\<dots> = Inr v" by (simp add: resolve_sources_step del: resolve_sources.simps)
  finally show "resolve_field_value repr md fc = Inr v"
    using a by (simp add: resolve_field_value_def)
next
  assume "\<forall>p \<in> set (source_list fc). final_value repr md fc p = Inr PNone"
  from resolve_sources_skip [OF this, of "[]"]
  show "resolve_field_value repr md fc = Inr PNone"
    by (simp add: resolve_field_value_def)
next
  assume "source_value md s = Inr PNone"
  then show "final_value repr md fc s = Inr PNone" by (simp add: final_value_def)
next
  assume "source_value md s = Inr x \<and> x \<noteq> PNone \<and> transformation_step repr fc x = Inr y"
  then show "final_value repr md fc s = extraction_step repr y (extraction_name fc)"
    by (simp add: final_value_def)
qed

text \<open>
  C1. On a tree without \<^verbatim>\<open>file_path\<close> the virtual source \<^verbatim>\<open>filename\<close> is not skipped,
  and on a tree without \<^verbatim>\<open>file_size\<close> the virtual source \<^verbatim>\<open>file_size\<close> is not skipped:
  the lookup raises \<^verbatim>\<open>KeyError\<close>, although the next declared source has a value.
\<close>

theorem resolve_field_value_virtual_source_raises:
  "resolve_field_value (\<lambda>_. [])
     [(PStr ''pillow'', PDict [(PStr ''width'', PInt 1024)])]
     \<lparr>fc_source = Some (Sources [''filename'', ''pillow.width'']), fc_transformation = None,
      fc_extraction = None, fc_unit = None\<rparr> = Inl KeyError
   \<and> resolve_field_value (\<lambda>_. [])
     [(PStr ''pillow'', PDict [(PStr ''width'', PInt 1024)])]
     \<lparr>fc_source = Some (Sources [''file_size'', ''pillow.width'']), fc_transformation = None,
      fc_extraction = None, fc_unit = None\<rparr> = Inl KeyError
   \<and> resolve_field_value (\<lambda>_. [])
     [(PStr ''pillow'', PDict [(PStr ''width'', PInt 1024)])]
     \<lparr>fc_source = Some (Sources [''format'', ''pillow.width'']), fc_transformation = None,
      fc_extraction = None, fc_unit = None\<rparr> = Inr (PInt 1024)"
  by (simp add: resolve_field_value_def source_list_def source_value_def get_or_empty_def
      extract_value_from_source_def transformation_step_def extraction_step_def
      extraction_name_def)

section \<open>Header assembly\<close>

lemma map_fields_keeps:
  "map_fields repr md target flds hdr = Inr hdr' \<Longrightarrow> hdr target = Some sec \<Longrightarrow>
   name \<notin> fst ` set flds \<Longrightarrow> \<exists>sec'. hdr' target = Some sec' \<and> sec' name = sec name"
proof (induction flds arbitrary: hdr sec)
  case Nil
  then show ?case by simp
next
  case (Cons a flds)
  obtain n fc where a: "a = (n, fc)" by (cases a)
  from Cons.prems(3) a have n: "n \<noteq> name" and rest: "name \<notin> fst ` set flds" by auto
  from Cons.prems(1) a obtain v where v: "resolve_field_value repr md fc = Inr v"
    by (auto split: sum.splits)
  show ?case
  proof (cases "v = PNone")
    case True
    with Cons.prems(1) a v have "map_fields repr md target flds hdr = Inr hdr'" by simp
    from Cons.IH [OF this Cons.prems(2) rest] show ?thesis .
  next
    case False
    let ?hdr1 = "hdr(target \<mapsto> sec(n \<mapsto> field_entry fc n v))"
    from False Cons.prems(1,2) a v have m: "map_fields repr md target flds ?hdr1 = Inr hdr'"
      by simp
    have "?hdr1 target = Some (sec(n \<mapsto> field_entry fc n v))" by simp
    from Cons.IH [OF m this rest] n show ?thesis by simp
  qed
qed

lemma map_fields_frame:
  "map_fields repr md target flds hdr = Inr hdr' \<Longrightarrow>
   (\<forall>s. s \<noteq> target \<longrightarrow> hdr' s = hdr s) \<and> (hdr target \<noteq> None \<longrightarrow> hdr' target \<noteq> None)"
proof (induction flds arbitrary: hdr)
  case Nil
  then show ?case by simp
next
  case (Cons a flds)
  obtain n fc where a: "a = (n, fc)" by (cases a)
  from Cons.prems a obtain v where v: "resolve_field_value repr md fc = Inr v"
    by (auto split: sum.splits)
  show ?case
  proof (cases "v = PNone")
    case True
    with Cons.prems a v have "map_fields repr md target flds hdr = Inr hdr'" by simp
    from Cons.IH [OF this] show ?thesis .
  next
    case False
    with Cons.prems a v obtain sec where sec: "hdr target = Some sec"
      by (auto split: option.splits)
    let ?hdr1 = "hdr(target \<mapsto> sec(n \<mapsto> field_entry fc n v))"
    from False Cons.prems sec a v have "map_fields repr md target flds ?hdr1 = Inr hdr'"
      by simp
    from Cons.IH [OF this] show ?thesis by simp
  qed
qed

lemma map_sections_keeps_sections:
  "map_sections repr md secs hdr = Inr hdr' \<Longrightarrow> hdr s \<noteq> None \<Longrightarrow> hdr' s \<noteq> None"
proof (induction secs arbitrary: hdr)
  case Nil
  then show ?case by simp
next
  case (Cons a secs)
  obtain sn sm where a: "a = (sn, sm)" by (cases a)
  show ?case
  proof (cases "target_section sn")
    case None
    with Cons.prems(1) a have "map_sections repr md secs hdr = Inr hdr'" by simp
    from Cons.IH [OF this Cons.prems(2)] show ?thesis .
  next
    case (Some target)
    with Cons.prems(1) a obtain hdr1 where
      h1: "map_fields repr md target sm hdr = Inr hdr1" and
      h2: "map_sections repr md secs hdr1 = Inr hdr'"
      by (auto split: sum.splits)
    from map_fields_frame [OF h1] Cons.prems(2) have "hdr1 s \<noteq> None"
      by (cases "s = target") auto
    from Cons.IH [OF h2 this] show ?thesis .
  qed
qed

lemma field_entry_cases:
  "field_entry fc n v =
     (if declares_unit fc \<and> n \<in> {''Image Width'', ''Image Height'', ''File Size'',
            ''Pixel Width'', ''Pixel Height''}
      then unit_envelope v (unit_of fc) else v)"
  by (auto simp: field_entry_def declares_unit_def unit_envelope_def unit_fields_def unit_of_def
      split: option.splits)

lemma unit_envelope_neq: "unit_envelope v u \<noteq> v"
proof
  assume "unit_envelope v u = v"
  then have "size (unit_envelope v u) = size v" by simp
  then show False by (simp add: unit_envelope_def)
qed

lemma map_fields_entry:
  assumes "map_fields repr md target flds hdr = Inr hdr'"
    and "distinct (map fst flds)"
    and "(field_name, fc) \<in> set flds"
    and "resolve_field_value repr md fc = Inr value"
    and "value \<noteq> PNone"
  shows "\<exists>sec. hdr' target = Some sec \<and>
           sec field_name =
             Some (if declares_unit fc \<and> field_name \<in> {''Image Width'', ''Image Height'',
                       ''File Size'', ''Pixel Width'', ''Pixel Height''}
                   then unit_envelope value (unit_of fc) else value)
         \<and> unit_envelope value (unit_of fc) \<noteq> value"
  using assms
proof (induction flds arbitrary: hdr)
  case Nil
  then show ?case by simp
next
  case (Cons a flds)
  obtain n fc' where a: "a = (n, fc')" by (cases a)
  from Cons.prems(1) a obtain v where v: "resolve_field_value repr md fc' = Inr v"
    by (auto split: sum.splits)
  show ?case
  proof (cases "(field_name, fc) = a")
    case True
    with a have eq: "n = field_name" "fc' = fc" by simp_all
    with v Cons.prems(4) have vv: "v = value" by simp
    with Cons.prems(1,5) a v obtain sec where sec: "hdr target = Some sec"
      by (auto split: option.splits)
    let ?hdr1 = "hdr(target \<mapsto> sec(n \<mapsto> field_entry fc' n v))"
    from Cons.prems(1,5) sec a v vv
    have m: "map_fields repr md target flds ?hdr1 = Inr hdr'" by simp
    from Cons.prems(2) a eq have notin: "field_name \<notin> fst ` set flds" by auto
    have "?hdr1 target = Some (sec(n \<mapsto> field_entry fc' n v))" by simp
    from map_fields_keeps [OF m this notin] eq vv
    show ?thesis by (auto simp: field_entry_cases unit_envelope_neq)
  next
    case False
    with Cons.prems(3) have mem: "(field_name, fc) \<in> set flds" by auto
    from Cons.prems(2) have d: "distinct (map fst flds)" by simp
    show ?thesis
    proof (cases "v = PNone")
      case True
      with Cons.prems(1) a v have "map_fields repr md target flds hdr = Inr hdr'" by simp
      from Cons.IH [OF this d mem Cons.prems(4,5)] show ?thesis .
    next
      case nn: False
      with Cons.prems(1) a v obtain sec where sec: "hdr target = Some sec"
        by (auto split: option.splits)
      let ?hdr1 = "hdr(target \<mapsto> sec(n \<mapsto> field_entry fc' n v))"
      from nn Cons.prems(1) sec a v
      have "map_fields repr md target flds ?hdr1 = Inr hdr'" by simp
      from Cons.IH [OF this d mem Cons.prems(4,5)] show ?thesis .
    qed
  qed
qed

lemma target_section_inj:
  "target_section a = Some t \<Longrightarrow> target_section b = Some t \<Longrightarrow> a = b"
  by (auto simp: target_section_def split: if_splits)

lemma map_sections_other_targets:
  "map_sections repr md secs hdr = Inr hdr' \<Longrightarrow>
   \<forall>p \<in> set secs. target_section (fst p) \<noteq> Some t \<Longrightarrow> hdr' t = hdr t"
proof (induction secs arbitrary: hdr)
  case Nil
  then show ?case by simp
next
  case (Cons a secs)
  obtain sn sm where a: "a = (sn, sm)" by (cases a)
  from Cons.prems(2) a have nt: "target_section sn \<noteq> Some t"
    and rest: "\<forall>p \<in> set secs. target_section (fst p) \<noteq> Some t" by simp_all
  show ?case
  proof (cases "target_section sn")
    case None
    with Cons.prems(1) a have "map_sections repr md secs hdr = Inr hdr'" by simp
    from Cons.IH [OF this rest] show ?thesis .
  next
    case (Some target)
    with Cons.prems(1) a obtain hdr1 where
      h1: "map_fields repr md target sm hdr = Inr hdr1" and
      h2: "map_sections repr md secs hdr1 = Inr hdr'"
      by (auto split: sum.splits)
    from Some nt have "t \<noteq> target" by auto
    with map_fields_frame [OF h1] have "hdr1 t = hdr t" by simp
    with Cons.IH [OF h2 rest] show ?thesis by simp
  qed
qed

lemma map_sections_entry:
  assumes "map_sections repr md secs hdr = Inr hdr'"
    and "distinct (map fst secs)"
    and "(section_name, flds) \<in> set secs"
    and "target_section section_name = Some target"
    and "distinct (map fst flds)"
    and "(field_name, fc) \<in> set flds"
    and "resolve_field_value repr md fc = Inr value"
    and "value \<noteq> PNone"
  shows "\<exists>sec. hdr' target = Some sec \<and> sec field_name = Some (field_entry fc field_name value)"
  using assms(1,2,3)
proof (induction secs arbitrary: hdr)
  case Nil
  then show ?case by simp
next
  case (Cons a secs)
  obtain sn sm where a: "a = (sn, sm)" by (cases a)
  show ?case
  proof (cases "(section_name, flds) = a")
    case True
    with a have eq: "sn = section_name" "sm = flds" by simp_all
    from Cons.prems(1) a eq assms(4) obtain hdr1 where
      h1: "map_fields repr md target flds hdr = Inr hdr1" and
      h2: "map_sections repr md secs hdr1 = Inr hdr'"
      by (auto split: sum.splits)
    from map_fields_entry [OF h1 assms(5,6,7,8)]
    obtain sec where sec: "hdr1 target = Some sec"
      "sec field_name = Some (field_entry fc field_name value)"
      by (auto simp: field_entry_cases)
    have "\<forall>p \<in> set secs. target_section (fst p) \<noteq> Some target"
    proof
      fix p assume p: "p \<in> set secs"
      show "target_section (fst p) \<noteq> Some target"
      proof
        assume "target_section (fst p) = Some target"
        from target_section_inj [OF this assms(4)] have "fst p = section_name" .
        with p have "section_name \<in> fst ` set secs" by force
        with Cons.prems(2) a eq show False by simp
      qed
    qed
    from map_sections_other_targets [OF h2 this] sec show ?thesis by simp
  next
    case False
    with Cons.prems(3) have mem: "(section_name, flds) \<in> set secs" by auto
    from Cons.prems(2) have d: "distinct (map fst secs)" by simp
    show ?thesis
    proof (cases "target_section sn")
      case None
      with Cons.prems(1) a have "map_sections repr md secs hdr = Inr hdr'" by simp
      from Cons.IH [OF this d mem] show ?thesis .
    next
      case (Some t)
      with Cons.prems(1) a obtain hdr1 where
        "map_sections repr md secs hdr1 = Inr hdr'"
        by (auto split: sum.splits)
      from Cons.IH [OF this d mem] show ?thesis .
    qed
  qed
qed

lemma generate_split:
  "generate_fa40_header repr conn md now file_dir = Inr hdr' \<Longrightarrow>
   \<exists>hdr. map_sections repr md (connector_sections conn) initial_header = Inr hdr
        \<and> add_header_metadata now file_dir hdr = Inr hdr'"
  by (auto simp: generate_fa40_header_def connector_sections_def split: sum.splits)

lemma generate_returns:
  assumes "map_sections repr md (connector_sections conn) initial_header = Inr hdr"
  shows "\<exists>hdr'. generate_fa40_header repr conn md now file_dir = Inr hdr'"
proof -
  have "initial_header ''General Section'' \<noteq> None" by (simp add: initial_header_def)
  from map_sections_keeps_sections [OF assms this]
  obtain g where "hdr ''General Section'' = Some g" by auto
  with assms show ?thesis
    by (simp add: generate_fa40_header_def connector_sections_def add_header_metadata_def Let_def)
qed

lemma add_header_metadata_result:
  assumes "add_header_metadata now file_dir hdr = Inr hdr'"
  shows "\<exists>g g'. hdr ''General Section'' = Some g \<and> hdr' = hdr(''General Section'' \<mapsto> g')
           \<and> g' ''Header Type'' = Some (PStr ''FA4.0 standardized header'')
           \<and> g' ''Version'' = Some (PStr ''v1.0'')
           \<and> g' ''Time Stamp'' = Some (PStr now)
           \<and> g' ''File Path''
               = (if g ''File Path'' = None then Some (PStr file_dir) else g ''File Path'')
           \<and> (\<forall>k. k \<notin> {''Header Type'', ''Version'', ''Time Stamp'', ''File Path''}
                  \<longrightarrow> g' k = g k)"
proof (cases "hdr ''General Section''")
  case None
  with assms show ?thesis by (simp add: add_header_metadata_def)
next
  case (Some g)
  define g1 where "g1 = g(''Header Type'' \<mapsto> PStr ''FA4.0 standardized header'',
                      ''Version'' \<mapsto> PStr ''v1.0'', ''Time Stamp'' \<mapsto> PStr now)"
  define g2 where "g2 = (if g1 ''File Path'' = None then g1(''File Path'' \<mapsto> PStr file_dir) else g1)"
  from assms Some have h: "hdr' = hdr(''General Section'' \<mapsto> g2)"
    by (auto simp: add_header_metadata_def Let_def g1_def g2_def)
  have p: "g1 ''File Path'' = g ''File Path''" by (simp add: g1_def)
  have "g2 ''Header Type'' = Some (PStr ''FA4.0 standardized header'')"
    "g2 ''Version'' = Some (PStr ''v1.0'')" "g2 ''Time Stamp'' = Some (PStr now)"
    "g2 ''File Path'' = (if g ''File Path'' = None then Some (PStr file_dir) else g ''File Path'')"
    "\<forall>k. k \<notin> {''Header Type'', ''Version'', ''Time Stamp'', ''File Path''} \<longrightarrow> g2 k = g k"
    unfolding g2_def p by (simp_all add: g1_def)
  with Some h show ?thesis by blast
qed

lemma add_header_metadata_keeps:
  assumes "add_header_metadata now file_dir hdr = Inr hdr'"
    and "hdr target = Some sec" and "sec field_name = Some entry"
    and "\<not> (target = ''General Section''
             \<and> field_name \<in> {''Header Type'', ''Version'', ''Time Stamp''})"
  shows "\<exists>sec'. hdr' target = Some sec' \<and> sec' field_name = Some entry"
proof -
  from add_header_metadata_result [OF assms(1)] obtain g g' where
    g: "hdr ''General Section'' = Some g" and h: "hdr' = hdr(''General Section'' \<mapsto> g')" and
    fp: "g' ''File Path''
               = (if g ''File Path'' = None then Some (PStr file_dir) else g ''File Path'')" and
    fr: "\<forall>k. k \<notin> {''Header Type'', ''Version'', ''Time Stamp'', ''File Path''}
                  \<longrightarrow> g' k = g k"
    by blast
  show ?thesis
  proof (cases "target = ''General Section''")
    case False
    with h assms(2,3) show ?thesis by simp
  next
    case True
    with g assms(2) have gs: "g = sec" by simp
    from True assms(4) have n: "field_name \<notin> {''Header Type'', ''Version'', ''Time Stamp''}"
      by blast
    have "g' field_name = Some entry"
    proof (cases "field_name = ''File Path''")
      case True
      with fp gs assms(3) show ?thesis by simp
    next
      case False
      with n have "field_name \<notin> {''Header Type'', ''Version'', ''Time Stamp'', ''File Path''}"
        by blast
      with fr gs assms(3) show ?thesis by simp
    qed
    with h True show ?thesis by simp
  qed
qed




text \<open>
  C7. Once the mappings have been processed, \<open>generate_fa40_header\<close> returns a header
  whose General Section has Header Type, Version and Time Stamp set to the two constants
  and to the current time stamp, whatever the mappings had stored under these names; its
  File Path is the one the mappings stored if there is one and the directory of the
  input file otherwise; every other field of the General Section and every other section
  is as the mappings left it.
\<close>

theorem header_metadata_overwrites_and_frame:
  assumes "map_sections repr md (connector_sections conn) initial_header = Inr hdr"
  shows "\<exists>g g' hdr'.
           generate_fa40_header repr conn md now file_dir = Inr hdr'
         \<and> hdr ''General Section'' = Some g \<and> hdr' ''General Section'' = Some g'
         \<and> g' ''Header Type'' = Some (PStr ''FA4.0 standardized header'')
         \<and> g' ''Version'' = Some (PStr ''v1.0'')
         \<and> g' ''Time Stamp'' = Some (PStr now)
         \<and> g' ''File Path''
             = (if g ''File Path'' = None then Some (PStr file_dir) else g ''File Path'')
         \<and> (\<forall>k. k \<notin> {''Header Type'', ''Version'', ''Time Stamp'', ''File Path''}
                \<longrightarrow> g' k = g k)
         \<and> (\<forall>s. s \<noteq> ''General Section'' \<longrightarrow> hdr' s = hdr s)"
proof -
  have "initial_header ''General Section'' \<noteq> None" by (simp add: initial_header_def)
  from map_sections_keeps_sections [OF assms this]
  obtain g where g: "hdr ''General Section'' = Some g" by auto
  with assms show ?thesis
    by (simp add: generate_fa40_header_def connector_sections_def add_header_metadata_def Let_def)
qed

theorem header_metadata_overwrites_and_frame_witness:
  "\<exists>g' hdr'.
     generate_fa40_header (\<lambda>_. [])
       \<lparr>mappings = Some [(''general_section'',
            [(''Version'', \<lparr>fc_source = Some (Sources [''file_size'']), fc_transformation = None,
                fc_extraction = None, fc_unit = None\<rparr>),
             (''File Size'', \<lparr>fc_source = Some (Sources [''file_size'']), fc_transformation = None,
                fc_extraction = None, fc_unit = None\<rparr>)])],
        validation = None\<rparr>
       [(PStr ''file_size'', PInt 1024)] ''2024-05-06T07:08:09'' ''/test'' = Inr hdr'
     \<and> hdr' ''General Section'' = Some g'
     \<and> g' ''Header Type'' = Some (PStr ''FA4.0 standardized header'')
     \<and> g' ''Version'' = Some (PStr ''v1.0'')
     \<and> g' ''Time Stamp'' = Some (PStr ''2024-05-06T07:08:09'')
     \<and> g' ''File Path'' = Some (PStr ''/test'')
     \<and> g' ''File Size'' = Some (PInt 1024)
     \<and> hdr' ''History'' = Some Map.empty"
proof -
  let ?conn = "\<lparr>mappings = Some [(''general_section'',
            [(''Version'', \<lparr>fc_source = Some (Sources [''file_size'']), fc_transformation = None,
                fc_extraction = None, fc_unit = None\<rparr>),
             (''File Size'', \<lparr>fc_source = Some (Sources [''file_size'']), fc_transformation = None,
                fc_extraction = None, fc_unit = None\<rparr>)])],
        validation = None\<rparr>"
  let ?hdr = "initial_header(''General Section'' \<mapsto>
                [''Version'' \<mapsto> PInt 1024, ''File Size'' \<mapsto> PInt 1024])"
  have h: "map_sections (\<lambda>_. []) [(PStr ''file_size'', PInt 1024)] (connector_sections ?conn)
             initial_header = Inr ?hdr"
    by (simp add: connector_sections_def initial_header_def target_section_def
        resolve_field_value_def source_list_def source_value_def
        transformation_step_def extraction_step_def extraction_name_def field_entry_def)
  from header_metadata_overwrites_and_frame [OF h, of "''2024-05-06T07:08:09''" "''/test''"]
  obtain g g' hdr' where
    k1: "generate_fa40_header (\<lambda>_. []) ?conn [(PStr ''file_size'', PInt 1024)]
          ''2024-05-06T07:08:09'' ''/test'' = Inr hdr'" and
    k2: "?hdr ''General Section'' = Some g" and
    k3: "hdr' ''General Section'' = Some g'" and
    k4: "g' ''Header Type'' = Some (PStr ''FA4.0 standardized header'')" and
    k5: "g' ''Version'' = Some (PStr ''v1.0'')" and
    k6: "g' ''Time Stamp'' = Some (PStr ''2024-05-06T07:08:09'')" and
    k7: "g' ''File Path'' = (if g ''File Path'' = None then Some (PStr ''/test'') else g ''File Path'')" and
    k8: "\<forall>k. k \<notin> {''Header Type'', ''Version'', ''Time Stamp'', ''File Path''} \<longrightarrow> g' k = g k" and
    k9: "\<forall>s. s \<noteq> ''General Section'' \<longrightarrow> hdr' s = ?hdr s"
    by (elim exE conjE) (rule that)
  from k2 have g: "g = [''Version'' \<mapsto> PInt 1024, ''File Size'' \<mapsto> PInt 1024]" by simp
  from k7 g have k7n: "g' ''File Path'' = Some (PStr ''/test'')" by simp
  from k8 g have k8n: "g' ''File Size'' = Some (PInt 1024)" by simp
  from k9 have k9n: "hdr' ''History'' = Some Map.empty" by (simp add: initial_header_def)
  show ?thesis
    by (intro exI [of _ g'] exI [of _ hdr'] conjI) (fact k1 k3 k4 k5 k6 k7n k8n k9n)+
qed

section \<open>Validation\<close>

lemma unpack2_split_once:
  "unpack2 (split_once (CHR ''.'') p) =
     (if has_dot p then Inr (path_section p, path_field p) else Inl ValueError)"
  by (simp add: unpack2_def split_once_def has_dot_def path_section_def path_field_def)

lemma check_required_dots:
  "\<forall>p \<in> set ps. has_dot p \<Longrightarrow>
   check_required hdr ps acc = Inr (acc @ filter (\<lambda>p. \<not> path_present hdr p) ps)"
  by (induction ps arbitrary: acc) (simp_all add: unpack2_split_once path_present_def)

lemma check_optional_dots:
  "\<forall>p \<in> set ps. has_dot p \<Longrightarrow>
   check_optional hdr ps acc = Inr (acc @ filter (path_present hdr) ps)"
  by (induction ps arbitrary: acc) (simp_all add: unpack2_split_once path_present_def)

lemma check_required_dotless:
  "\<exists>p \<in> set ps. \<not> has_dot p \<Longrightarrow> check_required hdr ps acc = Inl ValueError"
  by (induction ps arbitrary: acc) (auto simp: unpack2_split_once)

lemma check_optional_dotless:
  "\<exists>p \<in> set ps. \<not> has_dot p \<Longrightarrow> check_optional hdr ps acc = Inl ValueError"
  by (induction ps arbitrary: acc) (auto simp: unpack2_split_once)

lemma validate_header_dotless:
  assumes "p \<in> set (required_paths conn) \<union> set (optional_paths conn)" and "\<not> has_dot p"
  shows "validate_header conn hdr = Inl ValueError"
proof (cases "validation conn")
  case None
  with assms show ?thesis by (simp add: required_paths_def optional_paths_def)
next
  case (Some v)
  let ?req = "case required_fields v of Some r \<Rightarrow> r | None \<Rightarrow> []"
  let ?opt = "case optional_fields v of Some r \<Rightarrow> r | None \<Rightarrow> []"
  from assms Some have mem: "p \<in> set ?req \<union> set ?opt"
    by (simp add: required_paths_def optional_paths_def)
  show ?thesis
  proof (cases "\<exists>q \<in> set ?req. \<not> has_dot q")
    case True
    then have "check_required hdr ?req [] = Inl ValueError" by (rule check_required_dotless)
    with Some show ?thesis by (simp add: validate_header_def)
  next
    case False
    then have all: "\<forall>q \<in> set ?req. has_dot q" by blast
    with mem assms(2) have "\<exists>q \<in> set ?opt. \<not> has_dot q" by blast
    then have "check_optional hdr ?opt [] = Inl ValueError" by (rule check_optional_dotless)
    with Some check_required_dots [OF all, of hdr "[]"] show ?thesis
      by (simp add: validate_header_def)
  qed
qed

lemma validate_header_dots:
  assumes "\<forall>p \<in> set (required_paths conn) \<union> set (optional_paths conn). has_dot p"
  shows "validate_header conn hdr =
           Inr \<lparr>missing_required = filter (\<lambda>p. \<not> path_present hdr p) (required_paths conn),
                present_optional = filter (path_present hdr) (optional_paths conn),
                validation_errors = []\<rparr>"
proof (cases "validation conn")
  case None
  then show ?thesis by (simp add: validate_header_def required_paths_def optional_paths_def)
next
  case (Some v)
  let ?req = "case required_fields v of Some r \<Rightarrow> r | None \<Rightarrow> []"
  let ?opt = "case optional_fields v of Some r \<Rightarrow> r | None \<Rightarrow> []"
  from assms Some have r: "\<forall>q \<in> set ?req. has_dot q" and o: "\<forall>q \<in> set ?opt. has_dot q"
    by (simp_all add: required_paths_def optional_paths_def)
  from Some check_required_dots [OF r, of hdr "[]"] check_optional_dots [OF o, of hdr "[]"]
  show ?thesis
    by (simp add: validate_header_def required_paths_def optional_paths_def)
qed

lemma path_parts:
  "CHR ''.'' \<notin> set section \<Longrightarrow>
   path_section (section @ ''.'' @ field) = section \<and> path_field (section @ ''.'' @ field) = field"
  by (simp add: path_section_def path_field_def takeWhile_append dropWhile_append
      takeWhile_eq_all_conv [THEN iffD2] dropWhile_eq_Nil_conv [THEN iffD2])

lemma in_header_iff:
  "in_header hdr s f = (\<exists>sec v. hdr s = Some sec \<and> sec f = Some v)"
  by (auto simp: in_header_def split: option.splits)

lemma map_fields_only_declared:
  "map_fields repr md t flds hdr = Inr hdr' \<Longrightarrow> in_header hdr' s f \<Longrightarrow>
   in_header hdr s f \<or> (s = t \<and> f \<in> fst ` set flds)"
proof (induction flds arbitrary: hdr)
  case Nil
  then show ?case by simp
next
  case (Cons a flds)
  obtain n fc where a: "a = (n, fc)" by (cases a)
  from Cons.prems(1) a obtain v where v: "resolve_field_value repr md fc = Inr v"
    by (auto split: sum.splits)
  show ?case
  proof (cases "v = PNone")
    case True
    with Cons.prems(1) a v have "map_fields repr md t flds hdr = Inr hdr'" by simp
    from Cons.IH [OF this Cons.prems(2)] show ?thesis by auto
  next
    case False
    with Cons.prems(1) a v obtain sec where sec: "hdr t = Some sec"
      by (auto split: option.splits)
    let ?hdr1 = "hdr(t \<mapsto> sec(n \<mapsto> field_entry fc n v))"
    from False Cons.prems(1) sec a v have "map_fields repr md t flds ?hdr1 = Inr hdr'"
      by simp
    from Cons.IH [OF this Cons.prems(2)]
    have "in_header ?hdr1 s f \<or> (s = t \<and> f \<in> fst ` set flds)" .
    moreover have "in_header ?hdr1 s f \<Longrightarrow> in_header hdr s f \<or> (s = t \<and> f = n)"
      using sec by (auto simp: in_header_def split: if_splits)
    ultimately show ?thesis using a by auto
  qed
qed

lemma map_sections_only_declared:
  "map_sections repr md secs hdr = Inr hdr' \<Longrightarrow> in_header hdr' s f \<Longrightarrow>
   in_header hdr s f
   \<or> list_ex (\<lambda>(sn, flds). target_section sn = Some s \<and> f \<in> set (map fst flds)) secs"
proof (induction secs arbitrary: hdr)
  case Nil
  then show ?case by simp
next
  case (Cons a secs)
  obtain sn sm where a: "a = (sn, sm)" by (cases a)
  show ?case
  proof (cases "target_section sn")
    case None
    with Cons.prems(1) a have "map_sections repr md secs hdr = Inr hdr'" by simp
    from Cons.IH [OF this Cons.prems(2)] show ?thesis by auto
  next
    case (Some t)
    with Cons.prems(1) a obtain hdr1 where
      h1: "map_fields repr md t sm hdr = Inr hdr1" and
      h2: "map_sections repr md secs hdr1 = Inr hdr'"
      by (auto split: sum.splits)
    from Cons.IH [OF h2 Cons.prems(2)]
    have "in_header hdr1 s f
      \<or> list_ex (\<lambda>(sn, flds). target_section sn = Some s \<and> f \<in> set (map fst flds)) secs" .
    moreover have "in_header hdr1 s f \<Longrightarrow> in_header hdr s f \<or> (s = t \<and> f \<in> fst ` set sm)"
      by (rule map_fields_only_declared [OF h1])
    ultimately show ?thesis using a Some by auto
  qed
qed

lemma generated_fields:
  assumes "generate_fa40_header repr conn md now file_dir = Inr hdr"
  shows "(in_header hdr s f \<longrightarrow> declared conn s f \<or> injected s f)
       \<and> (injected s f \<longrightarrow> in_header hdr s f)"
proof -
  from generate_split [OF assms] obtain hdr0 where
    ms: "map_sections repr md (connector_sections conn) initial_header = Inr hdr0" and
    am: "add_header_metadata now file_dir hdr0 = Inr hdr"
    by blast
  from add_header_metadata_result [OF am] obtain g g' where
    g: "hdr0 ''General Section'' = Some g" and h: "hdr = hdr0(''General Section'' \<mapsto> g')" and
    ht: "g' ''Header Type'' = Some (PStr ''FA4.0 standardized header'')" and
    ve: "g' ''Version'' = Some (PStr ''v1.0'')" and
    ts: "g' ''Time Stamp'' = Some (PStr now)" and
    fp: "g' ''File Path''
               = (if g ''File Path'' = None then Some (PStr file_dir) else g ''File Path'')" and
    fr: "\<forall>k. k \<notin> {''Header Type'', ''Version'', ''Time Stamp'', ''File Path''}
                  \<longrightarrow> g' k = g k"
    by blast
  have i0: "\<not> in_header initial_header s f"
    by (simp add: in_header_def initial_header_def)
  have a: "in_header hdr s f \<longrightarrow> declared conn s f \<or> injected s f"
  proof
    assume p: "in_header hdr s f"
    show "declared conn s f \<or> injected s f"
    proof (cases "injected s f")
      case True
      then show ?thesis by simp
    next
      case False
      have "in_header hdr0 s f"
      proof (cases "s = ''General Section''")
        case True
        with False have "f \<notin> {''Header Type'', ''Version'', ''Time Stamp'', ''File Path''}"
          by (simp add: injected_def)
        with fr have "g' f = g f" by blast
        with p h g True show ?thesis by (simp add: in_header_def)
      next
        case False
        with p h show ?thesis by (simp add: in_header_def)
      qed
      from map_sections_only_declared [OF ms this] i0 show ?thesis
        by (simp add: declared_def)
    qed
  qed
  have b: "injected s f \<longrightarrow> in_header hdr s f"
  proof
    assume "injected s f"
    then have s: "s = ''General Section''"
      and f: "f = ''Header Type'' \<or> f = ''Version'' \<or> f = ''Time Stamp'' \<or> f = ''File Path''"
      by (auto simp: injected_def)
    from f ht ve ts fp have "g' f \<noteq> None" by (auto split: if_splits)
    with h s show "in_header hdr s f" by (simp add: in_header_def)
  qed
  from a b show ?thesis by (rule conjI)
qed


lemma path_present_parts:
  "CHR ''.'' \<notin> set s \<Longrightarrow>
   path_present hdr (s @ ''.'' @ f) = in_header hdr (actual_section s) f"
  using path_parts [of s f] by (simp add: path_present_def)

text \<open>
  C5. When every required and optional path of the connector has the form
  \<^verbatim>\<open>section.field\<close>, \<open>validate_header\<close> returns a report, and otherwise it raises
  \<^verbatim>\<open>ValueError\<close>. In the report a required path is in \<open>missing_required\<close> exactly when
  the section its token is mapped to is absent from the header or lacks the field, and an
  optional path is in \<open>present_optional\<close> exactly when section and field are present. The
  section token goes through the fixed table, an unknown token standing for itself. On
  the header that \<open>generate_fa40_header\<close> assembles from the same connector, a path
  naming a field that no field definition declares is reported missing if required and
  is never reported present, unless it names one of the four fields of the General
  Section that the assembler writes itself (Header Type, Version, Time Stamp, File
  Path): these are never missing and, if optional, always present.
\<close>

theorem validate_header_reports_presence:
  "(if \<forall>q \<in> set (required_paths conn) \<union> set (optional_paths conn). CHR ''.'' \<in> set q
    then \<exists>r. validate_header conn hdr = Inr r
     \<and> missing_required r = filter (\<lambda>p. \<not> path_present hdr p) (required_paths conn)
     \<and> present_optional r = filter (path_present hdr) (optional_paths conn)
     \<and> (\<forall>section field. CHR ''.'' \<notin> set section \<longrightarrow>
          (section @ ''.'' @ field \<in> set (missing_required r))
            = (section @ ''.'' @ field \<in> set (required_paths conn)
               \<and> \<not> (\<exists>sec v. hdr (actual_section section) = Some sec \<and> sec field = Some v))
        \<and> (section @ ''.'' @ field \<in> set (present_optional r))
            = (section @ ''.'' @ field \<in> set (optional_paths conn)
               \<and> (\<exists>sec v. hdr (actual_section section) = Some sec \<and> sec field = Some v)))
     \<and> (generate_fa40_header repr conn md now file_dir = Inr hdr \<longrightarrow>
          (\<forall>section field. CHR ''.'' \<notin> set section \<longrightarrow>
              (\<not> declared conn (actual_section section) field
                 \<and> \<not> injected (actual_section section) field \<longrightarrow>
                   (section @ ''.'' @ field \<in> set (required_paths conn)
                      \<longrightarrow> section @ ''.'' @ field \<in> set (missing_required r))
                 \<and> section @ ''.'' @ field \<notin> set (present_optional r))
            \<and> (injected (actual_section section) field \<longrightarrow>
                   section @ ''.'' @ field \<notin> set (missing_required r)
                 \<and> (section @ ''.'' @ field \<in> set (optional_paths conn)
                      \<longrightarrow> section @ ''.'' @ field \<in> set (present_optional r)))))
    else validate_header conn hdr = Inl ValueError)
   \<and> actual_section ''general_section'' = ''General Section''
   \<and> actual_section ''method_specific'' = ''Method Specific''
   \<and> actual_section ''tool_specific'' = ''Tool Specific''
   \<and> (\<forall>s. s \<notin> {''general_section'', ''method_specific'', ''tool_specific''}
         \<longrightarrow> actual_section s = s)"
proof -
  have a: "actual_section ''general_section'' = ''General Section''
     \<and> actual_section ''method_specific'' = ''Method Specific''
     \<and> actual_section ''tool_specific'' = ''Tool Specific''
     \<and> (\<forall>s. s \<notin> {''general_section'', ''method_specific'', ''tool_specific''}
           \<longrightarrow> actual_section s = s)"
    by (simp add: actual_section_def section_map_def)
  show ?thesis
  proof (cases "\<forall>q \<in> set (required_paths conn) \<union> set (optional_paths conn). CHR ''.'' \<in> set q")
    case False
    then obtain p where "p \<in> set (required_paths conn) \<union> set (optional_paths conn)"
      and "\<not> has_dot p" by (auto simp: has_dot_def)
    then have "validate_header conn hdr = Inl ValueError" by (rule validate_header_dotless)
    with False a show ?thesis by simp
  next
    case True
    then have "\<forall>q \<in> set (required_paths conn) \<union> set (optional_paths conn). has_dot q"
      by (simp add: has_dot_def)
    from validate_header_dots [OF this, of hdr]
    have r: "validate_header conn hdr =
           Inr \<lparr>missing_required = filter (\<lambda>p. \<not> path_present hdr p) (required_paths conn),
                present_optional = filter (path_present hdr) (optional_paths conn),
                validation_errors = []\<rparr>" .
    have pp: "\<And>section field. CHR ''.'' \<notin> set section \<Longrightarrow>
        path_present hdr (section @ ''.'' @ field)
          = (\<exists>sec v. hdr (actual_section section) = Some sec \<and> sec field = Some v)"
      using path_parts by (simp add: path_present_def in_header_iff)
    have g: "generate_fa40_header repr conn md now file_dir = Inr hdr \<longrightarrow>
          (\<forall>section field. CHR ''.'' \<notin> set section \<longrightarrow>
              (\<not> declared conn (actual_section section) field
                 \<and> \<not> injected (actual_section section) field \<longrightarrow>
                   (section @ ''.'' @ field \<in> set (required_paths conn)
                      \<longrightarrow> section @ ''.'' @ field
                            \<in> set (filter (\<lambda>p. \<not> path_present hdr p) (required_paths conn)))
                 \<and> section @ ''.'' @ field \<notin> set (filter (path_present hdr) (optional_paths conn)))
            \<and> (injected (actual_section section) field \<longrightarrow>
                   section @ ''.'' @ field
                     \<notin> set (filter (\<lambda>p. \<not> path_present hdr p) (required_paths conn))
                 \<and> (section @ ''.'' @ field \<in> set (optional_paths conn)
                      \<longrightarrow> section @ ''.'' @ field
                            \<in> set (filter (path_present hdr) (optional_paths conn)))))"
    proof (intro impI allI)
      fix sn fld
      assume gen: "generate_fa40_header repr conn md now file_dir = Inr hdr"
        and nd: "CHR ''.'' \<notin> set sn"
      note gf = generated_fields [OF gen, of "actual_section sn" fld]
      note p = path_present_parts [OF nd, of hdr fld]
      from gf show "(\<not> declared conn (actual_section sn) fld
                 \<and> \<not> injected (actual_section sn) fld \<longrightarrow>
                   (sn @ ''.'' @ fld \<in> set (required_paths conn)
                      \<longrightarrow> sn @ ''.'' @ fld
                            \<in> set (filter (\<lambda>p. \<not> path_present hdr p) (required_paths conn)))
                 \<and> sn @ ''.'' @ fld \<notin> set (filter (path_present hdr) (optional_paths conn)))
            \<and> (injected (actual_section sn) fld \<longrightarrow>
                   sn @ ''.'' @ fld
                     \<notin> set (filter (\<lambda>p. \<not> path_present hdr p) (required_paths conn))
                 \<and> (sn @ ''.'' @ fld \<in> set (optional_paths conn)
                      \<longrightarrow> sn @ ''.'' @ fld
                            \<in> set (filter (path_present hdr) (optional_paths conn))))"
        unfolding set_filter mem_Collect_eq p by blast
    qed
    have i: "\<forall>section field. CHR ''.'' \<notin> set section \<longrightarrow>
          (section @ ''.'' @ field \<in> set (filter (\<lambda>p. \<not> path_present hdr p) (required_paths conn)))
            = (section @ ''.'' @ field \<in> set (required_paths conn)
               \<and> \<not> (\<exists>sec v. hdr (actual_section section) = Some sec \<and> sec field = Some v))
        \<and> (section @ ''.'' @ field \<in> set (filter (path_present hdr) (optional_paths conn)))
            = (section @ ''.'' @ field \<in> set (optional_paths conn)
               \<and> (\<exists>sec v. hdr (actual_section section) = Some sec \<and> sec field = Some v))"
      using pp by simp
    from True r i g a show ?thesis by simp
  qed
qed

theorem validate_header_reports_presence_witness:
  "\<exists>hdr r.
     generate_fa40_header (\<lambda>_. [])
       \<lparr>mappings = Some [(''general_section'',
          [(''Image Width'', \<lparr>fc_source = Some (Sources [''pillow.width'']),
              fc_transformation = None, fc_extraction = Some ''first_available_numeric'',
              fc_unit = Some ''pixels''\<rparr>)])],
        validation = Some \<lparr>required_fields = Some [''general_section.Image Width'',
                              ''general_section.Image Height'', ''general_section.Version''],
                           optional_fields = Some [''general_section.Software'',
                              ''general_section.Header Type'', ''custom.Wafer ID'']\<rparr>\<rparr>
       [(PStr ''pillow'', PDict [(PStr ''width'', PInt 800)])]
       ''2024-05-06T07:08:09'' ''/test'' = Inr hdr
   \<and> validate_header
       \<lparr>mappings = Some [(''general_section'',
          [(''Image Width'', \<lparr>fc_source = Some (Sources [''pillow.width'']),
              fc_transformation = None, fc_extraction = Some ''first_available_numeric'',
              fc_unit = Some ''pixels''\<rparr>)])],
        validation = Some \<lparr>required_fields = Some [''general_section.Image Width'',
                              ''general_section.Image Height'', ''general_section.Version''],
                           optional_fields = Some [''general_section.Software'',
                              ''general_section.Header Type'', ''custom.Wafer ID'']\<rparr>\<rparr>
       hdr = Inr r
   \<and> ''general_section.Image Height'' \<in> set (missing_required r)
   \<and> ''general_section.Version'' \<notin> set (missing_required r)
   \<and> ''general_section.Image Width'' \<notin> set (missing_required r)
   \<and> ''general_section.Software'' \<notin> set (present_optional r)
   \<and> ''custom.Wafer ID'' \<notin> set (present_optional r)
   \<and> ''general_section.Header Type'' \<in> set (present_optional r)"
proof -
  let ?fw = "\<lparr>fc_source = Some (Sources [''pillow.width'']),
              fc_transformation = None, fc_extraction = Some ''first_available_numeric'',
              fc_unit = Some ''pixels''\<rparr>"
  let ?conn = "\<lparr>mappings = Some [(''general_section'', [(''Image Width'', ?fw)])],
        validation = Some \<lparr>required_fields = Some [''general_section.Image Width'',
                              ''general_section.Image Height'', ''general_section.Version''],
                           optional_fields = Some [''general_section.Software'',
                              ''general_section.Header Type'', ''custom.Wafer ID'']\<rparr>\<rparr>"
  let ?md = "[(PStr ''pillow'', PDict [(PStr ''width'', PInt 800)])]"
  have rw: "resolve_field_value (\<lambda>_. []) ?md ?fw = Inr (PInt 800)"
    by (simp add: resolve_field_value_def source_list_def source_value_def
        extract_value_from_source_def transformation_step_def extraction_step_def
        extraction_name_def)
  have ms: "map_sections (\<lambda>_. []) ?md (connector_sections ?conn) initial_header
      = Inr (initial_header(''General Section'' \<mapsto>
               [''Image Width'' \<mapsto> field_entry ?fw ''Image Width'' (PInt 800)]))"
    by (simp add: connector_sections_def target_section_def rw initial_header_def)
  from generate_returns [OF ms, of "''2024-05-06T07:08:09''" "''/test''"] obtain hdr where
    gen: "generate_fa40_header (\<lambda>_. []) ?conn ?md ''2024-05-06T07:08:09'' ''/test'' = Inr hdr"
    by blast
  have dots: "\<forall>q \<in> set (required_paths ?conn) \<union> set (optional_paths ?conn). CHR ''.'' \<in> set q"
    by (simp add: required_paths_def optional_paths_def)
  have req: "required_paths ?conn = [''general_section.Image Width'',
                ''general_section.Image Height'', ''general_section.Version'']"
    and opt: "optional_paths ?conn = [''general_section.Software'',
                ''general_section.Header Type'', ''custom.Wafer ID'']"
    by (simp_all add: required_paths_def optional_paths_def)
  note t = validate_header_reports_presence [of ?conn hdr "\<lambda>_. []" ?md "''2024-05-06T07:08:09''" "''/test''",
      unfolded if_P [OF dots], THEN conjunct1]
  from t obtain r where
    a1: "validate_header ?conn hdr = Inr r" and
    a2: "\<forall>section field. CHR ''.'' \<notin> set section \<longrightarrow>
          (section @ ''.'' @ field \<in> set (missing_required r))
            = (section @ ''.'' @ field \<in> set (required_paths ?conn)
               \<and> \<not> (\<exists>sec v. hdr (actual_section section) = Some sec \<and> sec field = Some v))
        \<and> (section @ ''.'' @ field \<in> set (present_optional r))
            = (section @ ''.'' @ field \<in> set (optional_paths ?conn)
               \<and> (\<exists>sec v. hdr (actual_section section) = Some sec \<and> sec field = Some v))" and
    a3i: "generate_fa40_header (\<lambda>_. []) ?conn ?md ''2024-05-06T07:08:09'' ''/test'' = Inr hdr \<longrightarrow>
          (\<forall>section field. CHR ''.'' \<notin> set section \<longrightarrow>
              (\<not> declared ?conn (actual_section section) field
                 \<and> \<not> injected (actual_section section) field \<longrightarrow>
                   (section @ ''.'' @ field \<in> set (required_paths ?conn)
                      \<longrightarrow> section @ ''.'' @ field \<in> set (missing_required r))
                 \<and> section @ ''.'' @ field \<notin> set (present_optional r))
            \<and> (injected (actual_section section) field \<longrightarrow>
                   section @ ''.'' @ field \<notin> set (missing_required r)
                 \<and> (section @ ''.'' @ field \<in> set (optional_paths ?conn)
                      \<longrightarrow> section @ ''.'' @ field \<in> set (present_optional r))))"
    by (elim exE conjE) (rule that)
  note a3 = a3i [THEN mp, OF gen]
  have sec: "actual_section ''general_section'' = ''General Section''"
    "actual_section ''custom'' = ''custom''"
    by (simp_all add: actual_section_def section_map_def)
  have d: "\<not> declared ?conn ''General Section'' ''Image Height''"
    "\<not> declared ?conn ''General Section'' ''Software''"
    "\<not> declared ?conn ''custom'' ''Wafer ID''"
    "\<not> injected ''General Section'' ''Image Height''"
    "\<not> injected ''General Section'' ''Software''"
    "\<not> injected ''custom'' ''Wafer ID''"
    "injected ''General Section'' ''Version''"
    "injected ''General Section'' ''Header Type''"
    by (simp_all add: declared_def injected_def connector_sections_def target_section_def)
  from a3 [rule_format, of "''general_section''" "''Image Height''"] sec d req
  have b1: "''general_section.Image Height'' \<in> set (missing_required r)" by simp
  from a3 [rule_format, of "''general_section''" "''Version''"] sec d
  have b2: "''general_section.Version'' \<notin> set (missing_required r)" by simp
  from a3 [rule_format, of "''general_section''" "''Software''"] sec d
  have b4: "''general_section.Software'' \<notin> set (present_optional r)" by simp
  from a3 [rule_format, of "''custom''" "''Wafer ID''"] sec d
  have b5: "''custom.Wafer ID'' \<notin> set (present_optional r)" by simp
  from a3 [rule_format, of "''general_section''" "''Header Type''"] sec d opt
  have b6: "''general_section.Header Type'' \<in> set (present_optional r)" by simp
  have c: "distinct (map fst (connector_sections ?conn))"
    "(''general_section'', [(''Image Width'', ?fw)]) \<in> set (connector_sections ?conn)"
    "target_section ''general_section'' = Some ''General Section''"
    "distinct (map fst [(''Image Width'', ?fw)])"
    "(''Image Width'', ?fw) \<in> set [(''Image Width'', ?fw)]"
    by (simp_all add: connector_sections_def target_section_def)
  from generate_split [OF gen] obtain hdr0 where
    ms0: "map_sections (\<lambda>_. []) ?md (connector_sections ?conn) initial_header = Inr hdr0" and
    am: "add_header_metadata ''2024-05-06T07:08:09'' ''/test'' hdr0 = Inr hdr"
    by blast
  from map_sections_entry [OF ms0 c rw] obtain s0 where
    s0: "hdr0 ''General Section'' = Some s0"
        "s0 ''Image Width'' = Some (field_entry ?fw ''Image Width'' (PInt 800))"
    by auto
  from add_header_metadata_keeps [OF am s0] obtain s1 where
    s1: "hdr ''General Section'' = Some s1"
        "s1 ''Image Width'' = Some (field_entry ?fw ''Image Width'' (PInt 800))"
    by auto
  from a2 [rule_format, of "''general_section''" "''Image Width''"] sec s1
  have b3: "''general_section.Image Width'' \<notin> set (missing_required r)" by simp
  show ?thesis
    by (intro exI [of _ hdr] exI [of _ r] conjI) (fact gen a1 b1 b2 b3 b4 b5 b6)+
qed

text \<open>
  With no mappings at all, the assembled header still has Header Type and Version: the
  required path \<^verbatim>\<open>general_section.Version\<close> is not reported missing and the optional path
  \<^verbatim>\<open>general_section.Header Type\<close> is reported present although no field definition
  declares either. A required path without a point gives no report.
\<close>

theorem validate_header_injected_fields_present:
  "(case generate_fa40_header (\<lambda>_. [])
           \<lparr>mappings = None,
            validation = Some \<lparr>required_fields = Some [''general_section.Version''],
                               optional_fields = Some [''general_section.Header Type'']\<rparr>\<rparr>
           [] ''2024-05-06T07:08:09'' ''/test'' of
      Inl e \<Rightarrow> Inl e
    | Inr hdr \<Rightarrow>
        validate_header
           \<lparr>mappings = None,
            validation = Some \<lparr>required_fields = Some [''general_section.Version''],
                               optional_fields = Some [''general_section.Header Type'']\<rparr>\<rparr>
           hdr)
     = Inr \<lparr>missing_required = [], present_optional = [''general_section.Header Type''],
            validation_errors = []\<rparr>
   \<and> validate_header
        \<lparr>mappings = None,
         validation = Some \<lparr>required_fields = Some [''Version''], optional_fields = None\<rparr>\<rparr>
        initial_header
     = Inl ValueError"
  by (simp add: generate_fa40_header_def add_header_metadata_def initial_header_def
      validate_header_def split_once_def unpack2_def actual_section_def section_map_def
      in_header_def Let_def)

text \<open>
  C10. A required or optional path without a point makes \<open>validate_header\<close> raise
  \<^verbatim>\<open>ValueError\<close> (the two-way split gives a single part, which cannot be unpacked into
  section and field) instead of returning a report; a report is returned exactly when
  every declared path has at least one point.
\<close>

theorem validate_header_total_only_with_dots:
  "(p \<in> set (required_paths conn) \<union> set (optional_paths conn) \<and> CHR ''.'' \<notin> set p
      \<longrightarrow> validate_header conn hdr = Inl ValueError)
   \<and> ((\<exists>r. validate_header conn hdr = Inr r)
        = (\<forall>q \<in> set (required_paths conn) \<union> set (optional_paths conn). CHR ''.'' \<in> set q))"
proof (intro conjI impI)
  assume "p \<in> set (required_paths conn) \<union> set (optional_paths conn) \<and> CHR ''.'' \<notin> set p"
  then show "validate_header conn hdr = Inl ValueError"
    using validate_header_dotless [of p conn hdr] by (simp add: has_dot_def)
next
  show "(\<exists>r. validate_header conn hdr = Inr r)
        = (\<forall>q \<in> set (required_paths conn) \<union> set (optional_paths conn). CHR ''.'' \<in> set q)"
  proof
    assume ex: "\<exists>r. validate_header conn hdr = Inr r"
    show "\<forall>q \<in> set (required_paths conn) \<union> set (optional_paths conn). CHR ''.'' \<in> set q"
    proof
      fix q assume q: "q \<in> set (required_paths conn) \<union> set (optional_paths conn)"
      show "CHR ''.'' \<in> set q"
      proof (rule ccontr)
        assume "CHR ''.'' \<notin> set q"
        then have "validate_header conn hdr = Inl ValueError"
          using validate_header_dotless [OF q, of hdr] by (simp add: has_dot_def)
        with ex show False by auto
      qed
    qed
  next
    assume "\<forall>q \<in> set (required_paths conn) \<union> set (optional_paths conn). CHR ''.'' \<in> set q"
    then have "\<forall>q \<in> set (required_paths conn) \<union> set (optional_paths conn). has_dot q"
      by (simp add: has_dot_def)
    from validate_header_dots [OF this, of hdr] show "\<exists>r. validate_header conn hdr = Inr r"
      by blast
  qed
qed

theorem validate_header_total_only_with_dots_witness:
  "validate_header
     \<lparr>mappings = None,
      validation = Some \<lparr>required_fields = Some [''general_section.File Name'', ''FileName''],
                         optional_fields = Some []\<rparr>\<rparr>
     [''General Section'' \<mapsto> [''File Name'' \<mapsto> PStr ''test.tif'']] = Inl ValueError
   \<and> (\<exists>r. validate_header
     \<lparr>mappings = None,
      validation = Some \<lparr>required_fields = Some [''general_section.File Name''],
                         optional_fields = Some [''general_section.Software'']\<rparr>\<rparr>
     [''General Section'' \<mapsto> [''File Name'' \<mapsto> PStr ''test.tif'']] = Inr r)"
  using validate_header_total_only_with_dots [of "''FileName''"
     "\<lparr>mappings = None,
      validation = Some \<lparr>required_fields = Some [''general_section.File Name'', ''FileName''],
                         optional_fields = Some []\<rparr>\<rparr>"
     "[''General Section'' \<mapsto> [''File Name'' \<mapsto> PStr ''test.tif'']]"]
    validate_header_total_only_with_dots [of "''x''"
     "\<lparr>mappings = None,
      validation = Some \<lparr>required_fields = Some [''general_section.File Name''],
                         optional_fields = Some [''general_section.Software'']\<rparr>\<rparr>"
     "[''General Section'' \<mapsto> [''File Name'' \<mapsto> PStr ''test.tif'']]"]
  by (simp add: required_paths_def optional_paths_def)

end
